theory Spec2Isabelle
  imports Main "HOL-Library.Word"
begin

unbundle bit_operations_syntax

section \<open>JavaScript values and built-ins used by \<^verbatim>\<open>src/utils/ipUtils.js\<close>\<close>

text \<open>
  Strings are lists of code units; the model covers strings whose code units are below
  256 (\<^typ>\<open>char\<close> is 8 bits wide).  The \<^verbatim>\<open>subnet\<close> argument of the module is documented
  as \<^verbatim>\<open>{string|number}\<close>: \<open>Str s\<close> is a string and \<open>Num n\<close> is an integer-valued
  number.  \<^verbatim>\<open>String(n)\<close> prints such a number in plain decimal digits as long as
  \<open>\<bar>n\<bar> < 10 ^ 21\<close> (above that JavaScript switches to exponent notation), so statements
  about numbers that leave the range of prefix lengths carry that bound.
\<close>

datatype js_error = Error | TypeError

datatype js_value = Num int | Str string

text \<open>\<^verbatim>\<open>!subnet\<close>: the number \<open>0\<close> and the empty string are falsy.  (So are \<^verbatim>\<open>null\<close>,
  \<^verbatim>\<open>undefined\<close> and \<^verbatim>\<open>NaN\<close>, which are outside the documented type and not modelled.)\<close>

fun js_not :: "js_value \<Rightarrow> bool" where
  "js_not (Num n) = (n = 0)"
| "js_not (Str s) = (s = [])"

definition code_unit :: "char \<Rightarrow> int" where
  "code_unit c = of_char c"

definition is_digit :: "char \<Rightarrow> bool" where
  "is_digit c = (48 \<le> code_unit c \<and> code_unit c \<le> 57)"

text \<open>The value of a digit in \<^verbatim>\<open>parseInt\<close>: \<open>0-9\<close>, \<open>a-z\<close> and \<open>A-Z\<close>.\<close>

definition digit_val :: "char \<Rightarrow> int option" where
  "digit_val c =
     (let u = code_unit c in
      if 48 \<le> u \<and> u \<le> 57 then Some (u - 48)
      else if 97 \<le> u \<and> u \<le> 122 then Some (u - 87)
      else if 65 \<le> u \<and> u \<le> 90 then Some (u - 55)
      else None)"

definition is_radix_digit :: "int \<Rightarrow> char \<Rightarrow> bool" where
  "is_radix_digit r c = (case digit_val c of None \<Rightarrow> False | Some d \<Rightarrow> d < r)"

definition digits_value :: "int \<Rightarrow> string \<Rightarrow> int" where
  "digits_value r ds = foldl (\<lambda>a c. a * r + (case digit_val c of None \<Rightarrow> 0 | Some d \<Rightarrow> d)) 0 ds"

text \<open>White space and line terminators (code units below 256) that \<^verbatim>\<open>trim\<close>,
  \<^verbatim>\<open>parseInt\<close> and the string-to-number conversion strip.\<close>

definition is_white :: "char \<Rightarrow> bool" where
  "is_white c = (code_unit c \<in> set [9, 10, 11, 12, 13, 32, 160])"

definition js_trim :: "string \<Rightarrow> string" where
  "js_trim s = rev (dropWhile is_white (rev (dropWhile is_white s)))"

text \<open>\<^verbatim>\<open>Number.prototype.toString\<close> on a non-negative integer: its decimal digits.\<close>

function dec_digits :: "int \<Rightarrow> string" where
  "dec_digits n = (if n < 10 then [char_of (48 + n)] else dec_digits (n div 10) @ [char_of (48 + n mod 10)])"
  by pat_completeness auto
termination
  by (relation "measure nat") auto

declare dec_digits.simps [simp del]

definition dec_int :: "int \<Rightarrow> string" where
  "dec_int n = (if n < 0 then CHR ''-'' # dec_digits (- n) else dec_digits n)"

text \<open>\<^verbatim>\<open>String(subnet)\<close>.\<close>

fun js_String :: "js_value \<Rightarrow> string" where
  "js_String (Num n) = dec_int n"
| "js_String (Str s) = s"

text \<open>
  \<^verbatim>\<open>parseInt(string, radix)\<close>; radix \<open>0\<close> stands for an omitted radix.  Leading white
  space is skipped, a sign is read, a \<^verbatim>\<open>0x\<close> prefix is stripped when the radix is 16 or
  omitted, and the longest prefix of digits of the radix is the value.  \<open>None\<close> is \<^verbatim>\<open>NaN\<close>.
\<close>

definition js_parseInt :: "string \<Rightarrow> int \<Rightarrow> int option" where
  "js_parseInt string radix =
     (let s = dropWhile is_white string;
          neg = (case s of c # _ \<Rightarrow> c = CHR ''-'' | [] \<Rightarrow> False);
          s1 = (case s of c # cs \<Rightarrow> if c = CHR ''-'' \<or> c = CHR ''+'' then cs else s | [] \<Rightarrow> s);
          hex = ((radix = 0 \<or> radix = 16) \<and>
                 (case s1 of a # b # _ \<Rightarrow> a = CHR ''0'' \<and> (b = CHR ''x'' \<or> b = CHR ''X'') | _ \<Rightarrow> False));
          r = (if hex then 16 else if radix = 0 then 10 else radix);
          s2 = (if hex then drop 2 s1 else s1);
          ds = takeWhile (is_radix_digit r) s2
      in if r < 2 \<or> 36 < r \<or> ds = [] then None
         else Some ((if neg then - 1 else 1) * digits_value r ds))"

text \<open>
  \<^verbatim>\<open>isNaN(string)\<close>: the string is converted with the \<^verbatim>\<open>StringNumericLiteral\<close> grammar
  (white space stripped on both sides; empty is 0; a decimal literal with optional sign,
  fraction and exponent; \<^verbatim>\<open>Infinity\<close>; or an unsigned \<^verbatim>\<open>0x\<close>, \<^verbatim>\<open>0o\<close>, \<^verbatim>\<open>0b\<close> literal).
\<close>

definition exponent_part :: "string \<Rightarrow> bool" where
  "exponent_part r =
     (case r of
        [] \<Rightarrow> True
      | c # r1 \<Rightarrow>
          (c = CHR ''e'' \<or> c = CHR ''E'') \<and>
          (let r2 = (case r1 of d # t \<Rightarrow> if d = CHR ''+'' \<or> d = CHR ''-'' then t else r1 | [] \<Rightarrow> r1)
           in r2 \<noteq> [] \<and> list_all is_digit r2))"

definition unsigned_decimal_literal :: "string \<Rightarrow> bool" where
  "unsigned_decimal_literal s =
     (s = ''Infinity'' \<or>
      (let i = takeWhile is_digit s; r = dropWhile is_digit s in
       case r of
         c # r1 \<Rightarrow>
           if c = CHR ''.''
           then (i \<noteq> [] \<or> takeWhile is_digit r1 \<noteq> []) \<and> exponent_part (dropWhile is_digit r1)
           else i \<noteq> [] \<and> exponent_part r
       | [] \<Rightarrow> i \<noteq> []))"

definition decimal_literal :: "string \<Rightarrow> bool" where
  "decimal_literal s =
     (case s of
        c # cs \<Rightarrow> if c = CHR ''+'' \<or> c = CHR ''-'' then unsigned_decimal_literal cs
                  else unsigned_decimal_literal s
      | [] \<Rightarrow> False)"

definition non_decimal_literal :: "string \<Rightarrow> bool" where
  "non_decimal_literal s =
     (case s of
        a # b # ds \<Rightarrow>
          a = CHR ''0'' \<and> ds \<noteq> [] \<and>
          ((b = CHR ''x'' \<or> b = CHR ''X'') \<and> list_all (is_radix_digit 16) ds \<or>
           (b = CHR ''o'' \<or> b = CHR ''O'') \<and> list_all (is_radix_digit 8) ds \<or>
           (b = CHR ''b'' \<or> b = CHR ''B'') \<and> list_all (is_radix_digit 2) ds)
      | _ \<Rightarrow> False)"

definition js_isNaN :: "string \<Rightarrow> bool" where
  "js_isNaN string =
     (let s = js_trim string in \<not> (s = [] \<or> non_decimal_literal s \<or> decimal_literal s))"

text \<open>\<^verbatim>\<open>String.prototype.split\<close> on a one-character separator.\<close>

fun js_split :: "char \<Rightarrow> string \<Rightarrow> string list" where
  "js_split sep [] = [[]]"
| "js_split sep (c # cs) =
     (if c = sep then [] # js_split sep cs
      else (case js_split sep cs of p # ps \<Rightarrow> (c # p) # ps | [] \<Rightarrow> [[c]]))"

text \<open>\<^verbatim>\<open>Array.prototype.join\<close>.\<close>

fun js_join :: "string \<Rightarrow> string list \<Rightarrow> string" where
  "js_join sep [] = []"
| "js_join sep [p] = p"
| "js_join sep (p # q # ps) = p @ sep @ js_join sep (q # ps)"

text \<open>
  The bitwise operators convert their operands to 32-bit two's complement integers;
  shift counts are taken modulo 32.
\<close>

definition js_shl :: "int \<Rightarrow> int \<Rightarrow> int" where
  "js_shl x k = sint (push_bit (nat (k mod 32)) (word_of_int x :: 32 word))"

definition js_shr :: "int \<Rightarrow> int \<Rightarrow> int" where
  "js_shr x k = sint (signed_drop_bit (nat (k mod 32)) (word_of_int x :: 32 word))"

definition js_and :: "int \<Rightarrow> int \<Rightarrow> int" where
  "js_and x y = sint ((word_of_int x :: 32 word) AND word_of_int y)"

definition js_or :: "int \<Rightarrow> int \<Rightarrow> int" where
  "js_or x y = sint ((word_of_int x :: 32 word) OR word_of_int y)"

definition js_xor :: "int \<Rightarrow> int \<Rightarrow> int" where
  "js_xor x y = sint ((word_of_int x :: 32 word) XOR word_of_int y)"

text \<open>\<^verbatim>\<open>xs[i] >> shift\<close>: an index past the end reads \<^verbatim>\<open>undefined\<close>, which shifts to 0.\<close>

definition js_index_shr :: "int list \<Rightarrow> nat \<Rightarrow> int \<Rightarrow> int" where
  "js_index_shr xs i shift = (if i < length xs then js_shr (xs ! i) shift else 0)"

section \<open>The address-parsing collaborator (\<^verbatim>\<open>ipaddr.js\<close>)\<close>

text \<open>
  \<^verbatim>\<open>ipUtils.js\<close> imports the package \<^verbatim>\<open>ipaddr.js\<close>, which is not part of the repository.
  Its address objects, constructors, validity checks, prefix matching and IPv4 network
  arithmetic are modelled below as the package implements them.  What depends on the
  package's release (the text grammars of the two parsers and the tables of special
  ranges) is taken as the parameter \<open>L\<close> of every function of the module:

  \<^item> \<open>IPv4_parser L\<close>, \<open>IPv6_parser L\<close>: \<^verbatim>\<open>ipaddr.IPv4.parser\<close> and \<^verbatim>\<open>ipaddr.IPv6.parser\<close>;
    they throw (\<open>Inl\<close>), return \<^verbatim>\<open>null\<close> (\<open>Inr None\<close>) or return the parts read;
  \<^item> \<open>IPv4_SpecialRanges L\<close>, \<open>IPv6_SpecialRanges L\<close>: the \<^verbatim>\<open>SpecialRanges\<close> tables, in
    the order of their keys.

  Theorems quantify over every \<open>L\<close>; \<open>ipaddr_ref\<close> further down is a concrete one.
\<close>

datatype addr = IPv4 (octets: "int list") | IPv6 (parts: "int list") (zoneId: "string option")

fun kind :: "addr \<Rightarrow> string" where
  "kind (IPv4 os) = ''ipv4''"
| "kind (IPv6 ps z) = ''ipv6''"

record ipaddr =
  IPv4_parser :: "string \<Rightarrow> js_error + int list option"
  IPv6_parser :: "string \<Rightarrow> js_error + (int list \<times> string option) option"
  IPv4_SpecialRanges :: "(string \<times> (addr \<times> int) list) list"
  IPv6_SpecialRanges :: "(string \<times> (addr \<times> int) list) list"

subsection \<open>Constructors, validity and parsing\<close>

text \<open>\<^verbatim>\<open>new ipaddr.IPv4(octets)\<close>: four octets, each within 0..255.\<close>

definition new_IPv4 :: "int list \<Rightarrow> js_error + addr" where
  "new_IPv4 os =
     (if length os \<noteq> 4 then Inl Error
      else if list_all (\<lambda>octet. 0 \<le> octet \<and> octet \<le> 255) os then Inr (IPv4 os)
      else Inl Error)"

text \<open>\<^verbatim>\<open>new ipaddr.IPv6(parts, zoneId)\<close>: sixteen bytes are paired up, eight parts are
  taken as they are; each part within 0..0xffff; an empty zone is dropped.\<close>

fun pair_bytes :: "int list \<Rightarrow> int list" where
  "pair_bytes (a # b # rest) = js_or (js_shl a 8) b # pair_bytes rest"
| "pair_bytes rest = []"

definition new_IPv6 :: "int list \<Rightarrow> string option \<Rightarrow> js_error + addr" where
  "new_IPv6 ps z =
     (if length ps \<noteq> 16 \<and> length ps \<noteq> 8 then Inl Error
      else let ps' = (if length ps = 16 then pair_bytes ps else ps) in
        if list_all (\<lambda>part. 0 \<le> part \<and> part \<le> 65535) ps'
        then Inr (IPv6 ps' (case z of None \<Rightarrow> None | Some zone \<Rightarrow> if zone = [] then None else Some zone))
        else Inl Error)"

text \<open>\<^verbatim>\<open>ipaddr.IPv4.isValid\<close> catches whatever the parser or the constructor throws
  (the constructor on \<^verbatim>\<open>null\<close> throws a \<^verbatim>\<open>TypeError\<close>).\<close>

definition IPv4_isValid :: "ipaddr \<Rightarrow> string \<Rightarrow> bool" where
  "IPv4_isValid L string =
     (case IPv4_parser L string of
        Inl e \<Rightarrow> False
      | Inr None \<Rightarrow> False
      | Inr (Some os) \<Rightarrow> (case new_IPv4 os of Inl e \<Rightarrow> False | Inr a \<Rightarrow> True))"

definition IPv4_parse :: "ipaddr \<Rightarrow> string \<Rightarrow> js_error + addr" where
  "IPv4_parse L string =
     (case IPv4_parser L string of
        Inl e \<Rightarrow> Inl e
      | Inr None \<Rightarrow> Inl Error
      | Inr (Some os) \<Rightarrow> new_IPv4 os)"

text \<open>The regular expression \<^verbatim>\<open>/^(0|[1-9]\d*)(\.(0|[1-9]\d*)){3}$/\<close>: a part holds no dot,
  so the string matches when its split at the dots has four such parts.\<close>

definition decimal_part :: "string \<Rightarrow> bool" where
  "decimal_part p =
     (case p of
        [] \<Rightarrow> False
      | c # cs \<Rightarrow> if c = CHR ''0'' then cs = [] else is_digit c \<and> list_all is_digit cs)"

definition four_part_decimal :: "string \<Rightarrow> bool" where
  "four_part_decimal string =
     (let ps = js_split (CHR ''.'') string in length ps = 4 \<and> list_all decimal_part ps)"

definition IPv4_isValidFourPartDecimal :: "ipaddr \<Rightarrow> string \<Rightarrow> bool" where
  "IPv4_isValidFourPartDecimal L string =
     (if IPv4_isValid L string \<and> four_part_decimal string then True else False)"

text \<open>\<^verbatim>\<open>ipaddr.IPv6.isValid\<close>: a string without a colon is rejected at once.\<close>

definition IPv6_isValid :: "ipaddr \<Rightarrow> string \<Rightarrow> bool" where
  "IPv6_isValid L string =
     (if CHR '':'' \<notin> set string then False
      else case IPv6_parser L string of
        Inl e \<Rightarrow> False
      | Inr None \<Rightarrow> False
      | Inr (Some (ps, z)) \<Rightarrow> (case new_IPv6 ps z of Inl e \<Rightarrow> False | Inr a \<Rightarrow> True))"

definition IPv6_parse :: "ipaddr \<Rightarrow> string \<Rightarrow> js_error + addr" where
  "IPv6_parse L string =
     (case IPv6_parser L string of
        Inl e \<Rightarrow> Inl e
      | Inr None \<Rightarrow> Inl TypeError
      | Inr (Some (ps, z)) \<Rightarrow> new_IPv6 ps z)"

definition ipaddr_isValid :: "ipaddr \<Rightarrow> string \<Rightarrow> bool" where
  "ipaddr_isValid L string = (IPv6_isValid L string \<or> IPv4_isValid L string)"

definition ipaddr_parse :: "ipaddr \<Rightarrow> string \<Rightarrow> js_error + addr" where
  "ipaddr_parse L string =
     (if IPv6_isValid L string then IPv6_parse L string
      else if IPv4_isValid L string then IPv4_parse L string
      else Inl Error)"

subsection \<open>Prefix matching and range classification\<close>

text \<open>
  \<^verbatim>\<open>matchCIDR(first, second, partSize, cidrBits)\<close>.  The loop runs while \<open>cidrBits > 0\<close>
  and takes \<open>partSize\<close> off each round; \<open>partSize\<close> is 8 or 16 at its two call sites,
  and the recursion is guarded by \<open>partSize > 0\<close> to be well-founded.
\<close>

function matchCIDR_loop :: "int list \<Rightarrow> int list \<Rightarrow> int \<Rightarrow> int \<Rightarrow> nat \<Rightarrow> bool" where
  "matchCIDR_loop first second partSize cidrBits part =
     (if cidrBits > 0 \<and> partSize > 0 then
        (let shift = (if partSize - cidrBits < 0 then 0 else partSize - cidrBits) in
         if js_index_shr first part shift \<noteq> js_index_shr second part shift then False
         else matchCIDR_loop first second partSize (cidrBits - partSize) (part + 1))
      else True)"
  by pat_completeness auto
termination
  by (relation "measure (\<lambda>(first, second, partSize, cidrBits, part). nat cidrBits)") auto

declare matchCIDR_loop.simps [simp del]

definition matchCIDR :: "int list \<Rightarrow> int list \<Rightarrow> int \<Rightarrow> int \<Rightarrow> js_error + bool" where
  "matchCIDR first second partSize cidrBits =
     (if length first \<noteq> length second then Inl Error
      else Inr (matchCIDR_loop first second partSize cidrBits 0))"

text \<open>\<^verbatim>\<open>a.match(other, cidrRange)\<close> for an IPv4 and an IPv6 receiver.\<close>

fun addr_match :: "addr \<Rightarrow> addr \<Rightarrow> int \<Rightarrow> js_error + bool" where
  "addr_match (IPv4 os) other cidrRange =
     (if kind other \<noteq> ''ipv4'' then Inl Error else matchCIDR os (octets other) 8 cidrRange)"
| "addr_match (IPv6 ps z) other cidrRange =
     (if kind other \<noteq> ''ipv6'' then Inl Error else matchCIDR ps (parts other) 16 cidrRange)"

text \<open>\<^verbatim>\<open>ipaddr.subnetMatch(address, rangeList)\<close>: the name of the first range one of whose
  subnets is of the address's kind and matches it; \<^verbatim>\<open>'unicast'\<close> when none does.\<close>

fun match_any :: "addr \<Rightarrow> (addr \<times> int) list \<Rightarrow> js_error + bool" where
  "match_any a [] = Inr False"
| "match_any a ((net, bits) # rest) =
     (if kind a = kind net then
        (case addr_match a net bits of
           Inl e \<Rightarrow> Inl e
         | Inr m \<Rightarrow> if m then Inr True else match_any a rest)
      else match_any a rest)"

fun subnetMatch :: "addr \<Rightarrow> (string \<times> (addr \<times> int) list) list \<Rightarrow> js_error + string" where
  "subnetMatch a [] = Inr ''unicast''"
| "subnetMatch a ((rangeName, rangeSubnets) # rest) =
     (case match_any a rangeSubnets of
        Inl e \<Rightarrow> Inl e
      | Inr m \<Rightarrow> if m then Inr rangeName else subnetMatch a rest)"

text \<open>\<^verbatim>\<open>a.range()\<close>.\<close>

fun addr_range :: "ipaddr \<Rightarrow> addr \<Rightarrow> js_error + string" where
  "addr_range L (IPv4 os) = subnetMatch (IPv4 os) (IPv4_SpecialRanges L)"
| "addr_range L (IPv6 ps z) = subnetMatch (IPv6 ps z) (IPv6_SpecialRanges L)"

subsection \<open>IPv4 masks, network and broadcast addresses\<close>

text \<open>\<^verbatim>\<open>IPv4.prototype.prefixLengthFromSubnetMask\<close>: the octets are visited from the last
  to the first, counting zero bits; a zero bit above a one bit gives \<^verbatim>\<open>null\<close>.\<close>

definition zerotable :: "int \<Rightarrow> int option" where
  "zerotable octet =
     map_of [(0, 8), (128, 7), (192, 6), (224, 5), (240, 4), (248, 3), (252, 2), (254, 1), (255, 0)] octet"

fun prefixLength_loop :: "int list \<Rightarrow> bool \<Rightarrow> int \<Rightarrow> int option" where
  "prefixLength_loop [] stop cidr = Some (32 - cidr)"
| "prefixLength_loop (octet # rest) stop cidr =
     (case zerotable octet of
        None \<Rightarrow> None
      | Some zeros \<Rightarrow>
          if stop \<and> zeros \<noteq> 0 then None
          else prefixLength_loop rest (stop \<or> zeros \<noteq> 8) (cidr + zeros))"

definition prefixLengthFromSubnetMask :: "addr \<Rightarrow> int option" where
  "prefixLengthFromSubnetMask a = prefixLength_loop (rev (octets a)) False 0"

text \<open>\<^verbatim>\<open>ipaddr.IPv4.subnetMaskFromPrefixLength(prefix)\<close>.\<close>

definition IPv4_subnetMaskFromPrefixLength :: "int \<Rightarrow> js_error + addr" where
  "IPv4_subnetMaskFromPrefixLength prefix =
     (if prefix < 0 \<or> prefix > 32 then Inl Error
      else let filledOctetCount = prefix div 8 in
        new_IPv4 (map (\<lambda>j. if j < filledOctetCount then 255
                            else if j = filledOctetCount then js_shl (2 ^ nat (prefix mod 8) - 1) (8 - prefix mod 8)
                            else 0) [0, 1, 2, 3]))"

text \<open>
  \<^verbatim>\<open>ipaddr.IPv4.parseCIDR(string)\<close> matches \<^verbatim>\<open>/^(.+)\/(\d+)$/\<close>: the digits after the last
  slash are the mask length (0..32), what stands before it (not empty, no line
  terminator) is parsed as the address.
\<close>

definition IPv4_parseCIDR :: "ipaddr \<Rightarrow> string \<Rightarrow> js_error + addr \<times> int" where
  "IPv4_parseCIDR L string =
     (let digits = rev (takeWhile (\<lambda>c. c \<noteq> CHR ''/'') (rev string)) in
      case dropWhile (\<lambda>c. c \<noteq> CHR ''/'') (rev string) of
        [] \<Rightarrow> Inl Error
      | slash # front \<Rightarrow>
          if front \<noteq> [] \<and> list_all (\<lambda>c. code_unit c \<noteq> 10 \<and> code_unit c \<noteq> 13) front \<and>
             digits \<noteq> [] \<and> list_all is_digit digits
          then (case js_parseInt digits 0 of
                  None \<Rightarrow> Inl Error
                | Some maskLength \<Rightarrow>
                    if maskLength \<ge> 0 \<and> maskLength \<le> 32
                    then (case IPv4_parse L (rev front) of
                            Inl e \<Rightarrow> Inl e
                          | Inr a \<Rightarrow> Inr (a, maskLength))
                    else Inl Error)
          else Inl Error)"

text \<open>\<^verbatim>\<open>networkAddressFromCIDR\<close> and \<^verbatim>\<open>broadcastAddressFromCIDR\<close>: octet by octet,
  \<^verbatim>\<open>ip & mask\<close> and \<^verbatim>\<open>ip | mask ^ 255\<close>; every failure is rethrown as one error.  Both
  addresses read here come out of \<open>new_IPv4\<close> and so have four octets.\<close>

definition IPv4_networkAddressFromCIDR :: "ipaddr \<Rightarrow> string \<Rightarrow> js_error + addr" where
  "IPv4_networkAddressFromCIDR L string =
     (case IPv4_parseCIDR L string of
        Inl e \<Rightarrow> Inl Error
      | Inr (a, maskLength) \<Rightarrow>
          (case IPv4_subnetMaskFromPrefixLength maskLength of
             Inl e \<Rightarrow> Inl Error
           | Inr m \<Rightarrow>
               (case new_IPv4 (map (\<lambda>i. js_and (octets a ! i) (octets m ! i)) [0, 1, 2, 3]) of
                  Inl e \<Rightarrow> Inl Error
                | Inr r \<Rightarrow> Inr r)))"

definition IPv4_broadcastAddressFromCIDR :: "ipaddr \<Rightarrow> string \<Rightarrow> js_error + addr" where
  "IPv4_broadcastAddressFromCIDR L string =
     (case IPv4_parseCIDR L string of
        Inl e \<Rightarrow> Inl Error
      | Inr (a, maskLength) \<Rightarrow>
          (case IPv4_subnetMaskFromPrefixLength maskLength of
             Inl e \<Rightarrow> Inl Error
           | Inr m \<Rightarrow>
               (case new_IPv4 (map (\<lambda>i. js_or (octets a ! i) (js_xor (octets m ! i) 255)) [0, 1, 2, 3]) of
                  Inl e \<Rightarrow> Inl Error
                | Inr r \<Rightarrow> Inr r)))"

text \<open>\<^verbatim>\<open>IPv4.prototype.toString\<close>: the octets joined by dots.\<close>

definition IPv4_toString :: "addr \<Rightarrow> string" where
  "IPv4_toString a = js_join ''.'' (map dec_int (octets a))"

subsection \<open>The method the IPv6 branch calls\<close>

text \<open>
  Line 144 of the source calls \<^verbatim>\<open>addr.mask(cidr).toString()\<close>.  The address objects of
  \<^verbatim>\<open>ipaddr.js\<close> have no method \<^verbatim>\<open>mask\<close> (they offer \<^verbatim>\<open>kind\<close>, \<^verbatim>\<open>match\<close>, \<^verbatim>\<open>range\<close>, \<^verbatim>\<open>toString\<close>,
  \<^verbatim>\<open>prefixLengthFromSubnetMask\<close> and conversions; masks and network addresses are
  functions of the constructors), so \<^verbatim>\<open>addr.mask\<close> is \<^verbatim>\<open>undefined\<close> and calling it throws a
  \<^verbatim>\<open>TypeError\<close>, whatever the address and the prefix length are.
\<close>

definition addr_mask :: "addr \<Rightarrow> int \<Rightarrow> js_error + string" where
  "addr_mask a cidr = Inl TypeError"

section \<open>The module \<^verbatim>\<open>src/utils/ipUtils.js\<close>\<close>

text \<open>
  A function that can throw returns \<open>js_error + 'a\<close> (\<open>Inl\<close> is the exception); a
  \<^verbatim>\<open>try\<close>/\<^verbatim>\<open>catch\<close> of the source is the case distinction on \<open>Inl\<close>.
\<close>

definition validateIp :: "ipaddr \<Rightarrow> string \<Rightarrow> bool" where
  "validateIp L ip =
     (if IPv6_isValid L ip then True
      else if IPv4_isValidFourPartDecimal L ip then True
      else False)"

definition getIpVersion :: "ipaddr \<Rightarrow> string \<Rightarrow> js_error + string option" where
  "getIpVersion L ip =
     (if ipaddr_isValid L ip then
        (case ipaddr_parse L ip of Inl e \<Rightarrow> Inl e | Inr a \<Rightarrow> Inr (Some (kind a)))
      else Inr None)"

text \<open>\<^verbatim>\<open>getIpVersion(ip) || 'ipv4'\<close>: \<^verbatim>\<open>null\<close> and the empty string are falsy.\<close>

definition or_ipv4 :: "string option \<Rightarrow> string" where
  "or_ipv4 v = (case v of None \<Rightarrow> ''ipv4'' | Some k \<Rightarrow> if k = [] then ''ipv4'' else k)"

text \<open>
  \<^verbatim>\<open>convertSubnetToCidr\<close> (lines 39 to 64).  \<open>cidr\<close> is \<open>None\<close> when the text is not numeric
  or \<^verbatim>\<open>parseInt\<close> gives \<^verbatim>\<open>NaN\<close>, the one value here on which \<^verbatim>\<open>Number.isInteger\<close> fails
  (a digit string too long for a finite number fails the range test as well).
\<close>

definition convertSubnetToCidr :: "ipaddr \<Rightarrow> js_value \<Rightarrow> string \<Rightarrow> js_error + int option" where
  "convertSubnetToCidr L subnet ipForVersionDetection =
     (if js_not subnet then Inr None
      else
        let subnetString = js_trim (js_String subnet) in
        case getIpVersion L ipForVersionDetection of
          Inl e \<Rightarrow> Inl e
        | Inr v \<Rightarrow>
            let ipVersion = or_ipv4 v;
                maxCidr = (if ipVersion = ''ipv6'' then 128 else 32);
                cidr = (if \<not> js_isNaN subnetString then js_parseInt subnetString 10 else None)
            in case (case cidr of None \<Rightarrow> None
                     | Some c \<Rightarrow> if c \<ge> 0 \<and> c \<le> maxCidr then Some c else None) of
                 Some c \<Rightarrow> Inr (Some c)
               | None \<Rightarrow>
                   if ipVersion = ''ipv4'' \<and> IPv4_isValid L subnetString then
                     (case IPv4_parse L subnetString of
                        Inl e \<Rightarrow> Inr None
                      | Inr a \<Rightarrow> Inr (prefixLengthFromSubnetMask a))
                   else Inr None)"

definition validateSubnet :: "ipaddr \<Rightarrow> js_value \<Rightarrow> string \<Rightarrow> js_error + bool" where
  "validateSubnet L subnet ipAddress =
     (case convertSubnetToCidr L subnet ipAddress of
        Inl e \<Rightarrow> Inl e
      | Inr c \<Rightarrow> Inr (c \<noteq> None))"

definition isPublicIp :: "ipaddr \<Rightarrow> string \<Rightarrow> bool" where
  "isPublicIp L ip =
     (if \<not> validateIp L ip then False
      else case ipaddr_parse L ip of
        Inl e \<Rightarrow> False
      | Inr a \<Rightarrow> (case addr_range L a of Inl e \<Rightarrow> False | Inr r \<Rightarrow> r = ''unicast''))"

definition isSameSubnet :: "ipaddr \<Rightarrow> string \<Rightarrow> string \<Rightarrow> js_value \<Rightarrow> js_error + bool" where
  "isSameSubnet L ip1 ip2 subnet =
     (case convertSubnetToCidr L subnet ip1 of
        Inl e \<Rightarrow> Inl e
      | Inr cidr \<Rightarrow>
          if \<not> validateIp L ip1 \<or> \<not> validateIp L ip2 \<or> cidr = None then Inr False
          else case cidr of
            None \<Rightarrow> Inr False
          | Some c \<Rightarrow>
              (case ipaddr_parse L ip1 of
                 Inl e \<Rightarrow> Inr False
               | Inr addr1 \<Rightarrow>
                   (case ipaddr_parse L ip2 of
                      Inl e \<Rightarrow> Inr False
                    | Inr addr2 \<Rightarrow>
                        if kind addr1 \<noteq> kind addr2 then Inr False
                        else (case addr_match addr1 addr2 c of
                                Inl e \<Rightarrow> Inr False
                              | Inr m \<Rightarrow> Inr m))))"

definition checkIpAndSubnet :: "ipaddr \<Rightarrow> string \<Rightarrow> js_value \<Rightarrow> js_error + string option" where
  "checkIpAndSubnet L ip subnet =
     (case convertSubnetToCidr L subnet ip of
        Inl e \<Rightarrow> Inl e
      | Inr cidr \<Rightarrow>
          if \<not> validateIp L ip \<or> cidr = None then Inr (Some ''Invalid IP or Subnet format.'')
          else case cidr of
            None \<Rightarrow> Inr (Some ''Invalid IP or Subnet format.'')
          | Some c \<Rightarrow>
              (case ipaddr_parse L ip of
                 Inl e \<Rightarrow> Inr (Some ''Invalid subnet mask.'')
               | Inr a \<Rightarrow>
                   if kind a = ''ipv4'' then
                     (let cidrStr = ip @ ''/'' @ dec_int c in
                      case IPv4_networkAddressFromCIDR L cidrStr of
                        Inl e \<Rightarrow> Inr (Some ''Invalid subnet mask.'')
                      | Inr n \<Rightarrow>
                          (case IPv4_broadcastAddressFromCIDR L cidrStr of
                             Inl e \<Rightarrow> Inr (Some ''Invalid subnet mask.'')
                           | Inr b \<Rightarrow>
                               if ip = IPv4_toString n \<and> c < 31
                               then Inr (Some ''IP address cannot be the network address.'')
                               else if ip = IPv4_toString b \<and> c < 31
                               then Inr (Some ''IP address cannot be the broadcast address.'')
                               else Inr None))
                   else
                     (case addr_mask a c of
                        Inl e \<Rightarrow> Inr (Some ''Invalid subnet mask.'')
                      | Inr networkAddress \<Rightarrow>
                          if ip = networkAddress \<and> c < 127
                          then Inr (Some ''IP address cannot be the network address.'')
                          else Inr None)))"

section \<open>A reference collaborator\<close>

text \<open>
  \<open>ipaddr_ref\<close> instantiates the parameter with the parsers and tables of the 2.x line
  of \<^verbatim>\<open>ipaddr.js\<close>; the concrete examples of the specification are evaluated with it.
\<close>

subsection \<open>The IPv4 text grammar\<close>

text \<open>\<^verbatim>\<open>ipv4Part = (0?\d+|0x[a-f0-9]+)\<close>, matched without regard to case.\<close>

definition is_hex :: "char \<Rightarrow> bool" where
  "is_hex c = is_radix_digit 16 c"

definition hexRegex :: "string \<Rightarrow> bool" where
  "hexRegex p =
     (case p of
        a # b # hs \<Rightarrow> a = CHR ''0'' \<and> (b = CHR ''x'' \<or> b = CHR ''X'') \<and> hs \<noteq> [] \<and> list_all is_hex hs
      | _ \<Rightarrow> False)"

definition octalRegex :: "string \<Rightarrow> bool" where
  "octalRegex p =
     (case p of
        a # ds \<Rightarrow> a = CHR ''0'' \<and> ds \<noteq> [] \<and> list_all (is_radix_digit 8) ds
      | _ \<Rightarrow> False)"

definition ipv4Part :: "string \<Rightarrow> bool" where
  "ipv4Part p = (p \<noteq> [] \<and> list_all is_digit p \<or> hexRegex p)"

text \<open>\<^verbatim>\<open>parseInt\<close> cannot return \<^verbatim>\<open>NaN\<close> on a part the regular expressions have matched;
  the branch of the model for it is not reached.\<close>

definition number_of :: "int option \<Rightarrow> js_error + int" where
  "number_of v = (case v of None \<Rightarrow> Inl Error | Some n \<Rightarrow> Inr n)"

definition parseIntAuto :: "string \<Rightarrow> js_error + int" where
  "parseIntAuto string =
     (if hexRegex string then number_of (js_parseInt string 16)
      else if (case string of a # b # _ \<Rightarrow> a = CHR ''0'' \<and> is_digit b | _ \<Rightarrow> False) then
        (if octalRegex string then number_of (js_parseInt string 8) else Inl Error)
      else number_of (js_parseInt string 10))"

fun collect :: "(js_error + int) list \<Rightarrow> js_error + int list" where
  "collect [] = Inr []"
| "collect (r # rs) =
     (case r of
        Inl e \<Rightarrow> Inl e
      | Inr v \<Rightarrow> (case collect rs of Inl e \<Rightarrow> Inl e | Inr vs \<Rightarrow> Inr (v # vs)))"

text \<open>The low bytes of a value: \<^verbatim>\<open>(value >> shift) & 0xff\<close>.\<close>

definition byte_at :: "int \<Rightarrow> int \<Rightarrow> int" where
  "byte_at v shift = js_and (js_shr v shift) 255"

definition IPv4_parser_ref :: "string \<Rightarrow> js_error + int list option" where
  "IPv4_parser_ref string =
     (let ps = js_split (CHR ''.'') string in
      if \<not> list_all ipv4Part ps then Inr None
      else case ps of
        [a, b, c, d] \<Rightarrow> map_sum id Some (collect (map parseIntAuto [a, b, c, d]))
      | [a] \<Rightarrow>
          (case parseIntAuto a of
             Inl e \<Rightarrow> Inl e
           | Inr v \<Rightarrow>
               if v > 4294967295 \<or> v < 0 then Inl Error
               else Inr (Some [byte_at v 24, byte_at v 16, byte_at v 8, byte_at v 0]))
      | [a, b] \<Rightarrow>
          (case parseIntAuto b of
             Inl e \<Rightarrow> Inl e
           | Inr v \<Rightarrow>
               if v > 16777215 \<or> v < 0 then Inl Error
               else (case parseIntAuto a of
                       Inl e \<Rightarrow> Inl e
                     | Inr x \<Rightarrow> Inr (Some [x, byte_at v 16, byte_at v 8, byte_at v 0])))
      | [a, b, c] \<Rightarrow>
          (case parseIntAuto c of
             Inl e \<Rightarrow> Inl e
           | Inr v \<Rightarrow>
               if v > 65535 \<or> v < 0 then Inl Error
               else (case collect (map parseIntAuto [a, b]) of
                       Inl e \<Rightarrow> Inl e
                     | Inr xs \<Rightarrow> Inr (Some (xs @ [byte_at v 8, byte_at v 0]))))
      | _ \<Rightarrow> Inr None)"

subsection \<open>The IPv6 text grammar\<close>

text \<open>
  \<^verbatim>\<open>native = ^(::)?((?:[0-9a-f]+::?)+)?([0-9a-f]+)?(::)?(%[0-9a-z]{1,})?$\<close>.  Before the
  zone the string is runs of hexadecimal digits and runs of colons: two colons (or none)
  in front of the first digits, one or two between digits, at most four at the end, and
  none, two or four when there are no digits at all.  \<open>native_scan\<close> reads the string
  with \<open>seen\<close> (digits were read) and \<open>n\<close> (the length of the colon run being read).
\<close>

definition is_alnum :: "char \<Rightarrow> bool" where
  "is_alnum c = (digit_val c \<noteq> None)"

fun native_scan :: "bool \<Rightarrow> nat \<Rightarrow> string \<Rightarrow> bool" where
  "native_scan seen n [] = (if seen then n \<le> 4 else n = 0 \<or> n = 2 \<or> n = 4)"
| "native_scan seen n (c # cs) =
     (if c = CHR '':'' then native_scan seen (Suc n) cs
      else if is_hex c then
        (if n = 0 then native_scan True 0 cs
         else if seen then (n = 1 \<or> n = 2) \<and> native_scan True 0 cs
         else n = 2 \<and> native_scan True 0 cs)
      else False)"

definition zone_of :: "string \<Rightarrow> string option" where
  "zone_of string =
     (case dropWhile (\<lambda>c. c \<noteq> CHR ''%'') string of [] \<Rightarrow> None | percent # z \<Rightarrow> Some z)"

definition zoneIndex :: "string option \<Rightarrow> bool" where
  "zoneIndex zone = (case zone of None \<Rightarrow> True | Some z \<Rightarrow> z \<noteq> [] \<and> list_all is_alnum z)"

definition native :: "string \<Rightarrow> bool" where
  "native string =
     (native_scan False 0 (takeWhile (\<lambda>c. c \<noteq> CHR ''%'') string) \<and> zoneIndex (zone_of string))"

text \<open>
  \<^verbatim>\<open>transitional\<close>: a prefix of digit runs each followed by one or two colons, with or
  without two colons in front (or the two colons alone), then four \<^verbatim>\<open>ipv4Part\<close>s joined
  by dots, then the zone.  The dotted part holds no colon, so the prefix ends at the
  last colon.  \<^verbatim>\<open>deprecatedTransitional\<close> is two colons and the dotted part.
\<close>

fun prefix_scan :: "bool \<Rightarrow> nat \<Rightarrow> string \<Rightarrow> bool" where
  "prefix_scan seen n [] = (if seen then n = 1 \<or> n = 2 else n = 2)"
| "prefix_scan seen n (c # cs) =
     (if c = CHR '':'' then prefix_scan seen (Suc n) cs
      else if is_hex c then
        (if n = 0 then prefix_scan True 0 cs
         else if seen then (n = 1 \<or> n = 2) \<and> prefix_scan True 0 cs
         else n = 2 \<and> prefix_scan True 0 cs)
      else False)"

definition dotted_quad :: "string \<Rightarrow> bool" where
  "dotted_quad t = (let ps = js_split (CHR ''.'') t in length ps = 4 \<and> list_all ipv4Part ps)"

definition before_zone :: "string \<Rightarrow> string" where
  "before_zone string = takeWhile (\<lambda>c. c \<noteq> CHR ''%'') string"

definition last_colon_prefix :: "string \<Rightarrow> string" where
  "last_colon_prefix m = rev (dropWhile (\<lambda>c. c \<noteq> CHR '':'') (rev m))"

definition last_colon_suffix :: "string \<Rightarrow> string" where
  "last_colon_suffix m = rev (takeWhile (\<lambda>c. c \<noteq> CHR '':'') (rev m))"

definition transitional :: "string \<Rightarrow> bool" where
  "transitional string =
     (prefix_scan False 0 (last_colon_prefix (before_zone string)) \<and>
      dotted_quad (last_colon_suffix (before_zone string)) \<and> zoneIndex (zone_of string))"

definition deprecatedTransitional :: "string \<Rightarrow> bool" where
  "deprecatedTransitional string =
     (take 2 string = ''::'' \<and> dotted_quad (before_zone (drop 2 string)) \<and>
      zoneIndex (zone_of string))"

text \<open>
  \<^verbatim>\<open>expandIPv6(string, parts)\<close>, called on a string one of the expressions has matched:
  more than one \<^verbatim>\<open>::\<close> gives \<^verbatim>\<open>null\<close>; the zone is cut off; the colons are counted (a
  \<^verbatim>\<open>::\<close> at either end counts one less); more colons than parts gives \<^verbatim>\<open>null\<close>; the first
  \<^verbatim>\<open>::\<close> is replaced by the missing zero groups; a colon left at either end is dropped;
  the groups are read in base 16.
\<close>

fun count_double_colon :: "string \<Rightarrow> nat" where
  "count_double_colon (a # b # r) =
     (if a = CHR '':'' \<and> b = CHR '':'' then 1 else 0) + count_double_colon (b # r)"
| "count_double_colon r = 0"

fun replace_double_colon :: "string \<Rightarrow> string \<Rightarrow> string" where
  "replace_double_colon replacement (a # b # r) =
     (if a = CHR '':'' \<and> b = CHR '':'' then replacement @ r
      else a # replace_double_colon replacement (b # r))"
| "replace_double_colon replacement r = r"

definition expandIPv6 :: "string \<Rightarrow> int \<Rightarrow> js_error + (int list \<times> string option) option" where
  "expandIPv6 string nparts =
     (if count_double_colon string > 1 then Inr None
      else
        let zoneId = zone_of string;
            s = before_zone string;
            colons = int (length (filter (\<lambda>c. c = CHR '':'') s));
            c1 = (if take 2 s = ''::'' then colons - 1 else colons);
            colonCount = (if rev (take 2 (rev s)) = ''::'' then c1 - 1 else c1)
        in if colonCount > nparts then Inr None
           else
             let replacement = '':'' @ concat (replicate (nat (nparts - colonCount)) ''0:'');
                 s1 = replace_double_colon replacement s;
                 s2 = (case s1 of c # cs \<Rightarrow> if c = CHR '':'' then cs else s1 | [] \<Rightarrow> s1);
                 s3 = (case rev s2 of c # cs \<Rightarrow> if c = CHR '':'' then rev cs else s2 | [] \<Rightarrow> s2)
             in case collect (map (\<lambda>g. number_of (js_parseInt g 16)) (js_split (CHR '':'') s3)) of
                  Inl e \<Rightarrow> Inl e
                | Inr ps \<Rightarrow> Inr (Some (ps, zoneId)))"

definition IPv6_parser_tail :: "string \<Rightarrow> js_error + (int list \<times> string option) option" where
  "IPv6_parser_tail string =
     (if native string then expandIPv6 string 8
      else if transitional string then
        (let prefix = last_colon_prefix (before_zone string);
             quad = js_split (CHR ''.'') (last_colon_suffix (before_zone string));
             zoneId = (case zone_of string of None \<Rightarrow> [] | Some z \<Rightarrow> CHR ''%'' # z);
             a = (if rev (take 2 (rev prefix)) = ''::'' then prefix else butlast prefix)
         in case expandIPv6 (a @ zoneId) 6 of
              Inl e \<Rightarrow> Inl e
            | Inr None \<Rightarrow> Inl TypeError
            | Inr (Some (ps, z)) \<Rightarrow>
                (case collect (map (\<lambda>p. number_of (js_parseInt p 0)) quad) of
                   Inl e \<Rightarrow> Inl e
                 | Inr os \<Rightarrow>
                     if list_all (\<lambda>octet. 0 \<le> octet \<and> octet \<le> 255) os
                     then Inr (Some (ps @ pair_bytes os, z))
                     else Inr None))
      else Inr None)"

definition IPv6_parser_ref :: "string \<Rightarrow> js_error + (int list \<times> string option) option" where
  "IPv6_parser_ref string =
     (if deprecatedTransitional string then IPv6_parser_tail (''::ffff:'' @ drop 2 string)
      else IPv6_parser_tail string)"

subsection \<open>The tables of special ranges\<close>

definition IPv4_SpecialRanges_ref :: "(string \<times> (addr \<times> int) list) list" where
  "IPv4_SpecialRanges_ref =
     [(''unspecified'', [(IPv4 [0, 0, 0, 0], 8)]),
      (''broadcast'', [(IPv4 [255, 255, 255, 255], 32)]),
      (''multicast'', [(IPv4 [224, 0, 0, 0], 4)]),
      (''linkLocal'', [(IPv4 [169, 254, 0, 0], 16)]),
      (''loopback'', [(IPv4 [127, 0, 0, 0], 8)]),
      (''carrierGradeNat'', [(IPv4 [100, 64, 0, 0], 10)]),
      (''private'', [(IPv4 [10, 0, 0, 0], 8), (IPv4 [172, 16, 0, 0], 12), (IPv4 [192, 168, 0, 0], 16)]),
      (''reserved'',
         [(IPv4 [192, 0, 0, 0], 24), (IPv4 [192, 0, 2, 0], 24), (IPv4 [192, 88, 99, 0], 24),
          (IPv4 [198, 18, 0, 0], 15), (IPv4 [198, 51, 100, 0], 24), (IPv4 [203, 0, 113, 0], 24),
          (IPv4 [240, 0, 0, 0], 4)])]"

definition IPv6_SpecialRanges_ref :: "(string \<times> (addr \<times> int) list) list" where
  "IPv6_SpecialRanges_ref =
     [(''unspecified'', [(IPv6 [0, 0, 0, 0, 0, 0, 0, 0] None, 128)]),
      (''linkLocal'', [(IPv6 [65152, 0, 0, 0, 0, 0, 0, 0] None, 10)]),
      (''multicast'', [(IPv6 [65280, 0, 0, 0, 0, 0, 0, 0] None, 8)]),
      (''loopback'', [(IPv6 [0, 0, 0, 0, 0, 0, 0, 1] None, 128)]),
      (''uniqueLocal'', [(IPv6 [64512, 0, 0, 0, 0, 0, 0, 0] None, 7)]),
      (''ipv4Mapped'', [(IPv6 [0, 0, 0, 0, 0, 65535, 0, 0] None, 96)]),
      (''rfc6145'', [(IPv6 [0, 0, 0, 0, 65535, 0, 0, 0] None, 96)]),
      (''rfc6052'', [(IPv6 [100, 65435, 0, 0, 0, 0, 0, 0] None, 96)]),
      (''6to4'', [(IPv6 [8194, 0, 0, 0, 0, 0, 0, 0] None, 16)]),
      (''teredo'', [(IPv6 [8193, 0, 0, 0, 0, 0, 0, 0] None, 32)]),
      (''reserved'', [(IPv6 [8193, 3512, 0, 0, 0, 0, 0, 0] None, 32)])]"

definition ipaddr_ref :: ipaddr where
  "ipaddr_ref =
     \<lparr> IPv4_parser = IPv4_parser_ref,
       IPv6_parser = IPv6_parser_ref,
       IPv4_SpecialRanges = IPv4_SpecialRanges_ref,
       IPv6_SpecialRanges = IPv6_SpecialRanges_ref \<rparr>"

section \<open>Notions used in the statements\<close>

text \<open>
  The dotted-decimal branch of \<^verbatim>\<open>convertSubnetToCidr\<close> (lines 53 to 63 of the source):
  what the function returns once the text of the subnet was not accepted as a prefix
  length.
\<close>

definition dotted_path :: "ipaddr \<Rightarrow> string \<Rightarrow> string \<Rightarrow> int option" where
  "dotted_path L s ip =
     (if \<not> IPv6_isValid L ip \<and> IPv4_isValid L s
      then (case IPv4_parse L s of Inl e \<Rightarrow> None | Inr a \<Rightarrow> prefixLengthFromSubnetMask a)
      else None)"

text \<open>
  The network and the broadcast address of an IPv4 address (its four octets) and a prefix
  length, in the words of the specification: the mask of \<open>cidr\<close> bits is \<open>cidr\<close> leading
  one bits (octet \<open>i\<close> has the \<open>cidr - 8 i\<close> of them that fall into it, between none and
  eight); the network address is the bitwise AND of the address with the mask; the
  broadcast address has all host bits, those outside the mask, set to 1.
\<close>

definition byte :: "int \<Rightarrow> bool" where
  "byte x = (0 \<le> x \<and> x \<le> 255)"

definition mask_octet :: "int \<Rightarrow> int \<Rightarrow> int" where
  "mask_octet cidr i = 256 - 2 ^ nat (8 - max 0 (min 8 (cidr - 8 * i)))"

definition netmask :: "int \<Rightarrow> int list" where
  "netmask cidr = map (mask_octet cidr) [0, 1, 2, 3]"

definition network_address :: "int list \<Rightarrow> int \<Rightarrow> int list" where
  "network_address os cidr = map (\<lambda>(x, m). x AND m) (zip os (netmask cidr))"

definition broadcast_address :: "int list \<Rightarrow> int \<Rightarrow> int list" where
  "broadcast_address os cidr = map (\<lambda>(x, m). x OR (m XOR 255)) (zip os (netmask cidr))"

text \<open>
  The network address of an IPv6 address (its eight parts) and a prefix length, in the
  words of the specification: the address masked to \<open>cidr\<close> bits, part \<open>i\<close> keeping the
  \<open>cidr - 16 i\<close> leading bits that fall into it, between none and sixteen.
\<close>

definition ipv6_network_address :: "int list \<Rightarrow> int \<Rightarrow> int list" where
  "ipv6_network_address ps cidr =
     map (\<lambda>(i, part). part AND (65536 - 2 ^ nat (16 - max 0 (min 16 (cidr - 16 * i)))))
       (zip [0, 1, 2, 3, 4, 5, 6, 7] ps)"

text \<open>
  The numbers whose 32 bits are a run of one bits followed by zero bits, the run not
  empty: \<open>2 ^ 32 - 2 ^ k\<close> for \<open>k\<close> from 0 to 31 (\<^verbatim>\<open>255.255.255.255\<close> down to \<^verbatim>\<open>128.0.0.0\<close>
  read as one number).
\<close>

definition mask_numbers :: "int list" where
  "mask_numbers = map (\<lambda>k. 2 ^ 32 - 2 ^ k) [0..<32]"
section \<open>Decimal text: printing, trimming and reading back\<close>

lemma code_unit_char_of: "0 \<le> n \<Longrightarrow> n < 256 \<Longrightarrow> code_unit (char_of (n::int)) = n"
  by (simp add: code_unit_def)

lemma is_digit_char_of: "0 \<le> d \<Longrightarrow> d < 10 \<Longrightarrow> is_digit (char_of (48 + d :: int))"
  by (simp add: is_digit_def code_unit_char_of)

lemma digit_val_char_of: "0 \<le> d \<Longrightarrow> d < 10 \<Longrightarrow> digit_val (char_of (48 + d :: int)) = Some d"
  by (simp add: digit_val_def code_unit_char_of)

lemma dec_digits_all_digit: "0 \<le> n \<Longrightarrow> list_all is_digit (dec_digits n)"
proof (induction n rule: dec_digits.induct)
  case (1 n)
  show ?case
  proof (cases "n < 10")
    case True
    with 1(2) show ?thesis by (subst dec_digits.simps) (simp add: is_digit_char_of)
  next
    case False
    then have "list_all is_digit (dec_digits (n div 10))" using 1 by simp
    moreover have "is_digit (char_of (48 + n mod 10))" by (rule is_digit_char_of) simp_all
    ultimately show ?thesis using False by (subst dec_digits.simps) simp
  qed
qed

lemma dec_digits_nonempty: "dec_digits n \<noteq> []"
  by (subst dec_digits.simps) simp

lemma digits_value_snoc:
  "digits_value r (ds @ [c]) = digits_value r ds * r + (case digit_val c of None \<Rightarrow> 0 | Some d \<Rightarrow> d)"
  by (simp add: digits_value_def)

lemma digits_value_dec_digits: "0 \<le> n \<Longrightarrow> digits_value 10 (dec_digits n) = n"
proof (induction n rule: dec_digits.induct)
  case (1 n)
  show ?case
  proof (cases "n < 10")
    case True
    with 1(2) show ?thesis
      by (subst dec_digits.simps) (simp add: digits_value_def digit_val_char_of)
  next
    case False
    then have "digits_value 10 (dec_digits (n div 10)) = n div 10" using 1 by simp
    moreover have "digit_val (char_of (48 + n mod 10)) = Some (n mod 10)"
      by (rule digit_val_char_of) simp_all
    ultimately show ?thesis using False
      by (subst dec_digits.simps) (simp add: digits_value_snoc)
  qed
qed

lemma is_digit_not_white: "is_digit c \<Longrightarrow> \<not> is_white c"
  by (auto simp: is_digit_def is_white_def)

lemma is_digit_radix10: "is_digit c \<Longrightarrow> is_radix_digit 10 c"
  by (auto simp: is_digit_def is_radix_digit_def digit_val_def)

lemma is_digit_not_sign: "is_digit c \<Longrightarrow> c \<noteq> CHR ''-'' \<and> c \<noteq> CHR ''+'' \<and> c \<noteq> CHR ''.'' \<and> c \<noteq> CHR '':'' \<and> c \<noteq> CHR ''/''"
  by (auto simp: is_digit_def code_unit_def)

lemma minus_not_white: "\<not> is_white (CHR ''-'')"
  by (simp add: is_white_def code_unit_def)

lemma takeWhile_all: "list_all P xs \<Longrightarrow> takeWhile P xs = xs"
  by (induction xs) auto

lemma dropWhile_all: "list_all P xs \<Longrightarrow> dropWhile P xs = []"
  by (induction xs) auto

lemma js_trim_id:
  assumes "s \<noteq> []" "\<not> is_white (hd s)" "\<not> is_white (last s)"
  shows "js_trim s = s"
proof -
  have a: "dropWhile is_white s = s" using assms(1,2) by (cases s) auto
  have "rev s \<noteq> []" "\<not> is_white (hd (rev s))" using assms(1,3) by (simp_all add: hd_rev)
  then have "dropWhile is_white (rev s) = rev s" by (cases "rev s") auto
  with a show ?thesis by (simp add: js_trim_def)
qed

lemma digits_ends:
  assumes "ds \<noteq> []" "list_all is_digit ds"
  shows "is_digit (hd ds)" "is_digit (last ds)"
  using assms by (auto simp: list_all_iff)

lemma dec_int_cases:
  obtains (neg) "n < 0" "dec_int n = CHR ''-'' # dec_digits (- n)"
  | (nonneg) "0 \<le> n" "dec_int n = dec_digits n"
  by (cases "n < 0") (auto simp: dec_int_def)

lemma js_trim_dec_int: "js_trim (dec_int n) = dec_int n"
proof (cases n rule: dec_int_cases)
  case neg
  have d: "dec_digits (- n) \<noteq> []" "list_all is_digit (dec_digits (- n))"
    using neg by (simp_all add: dec_digits_nonempty dec_digits_all_digit)
  show ?thesis unfolding neg(2)
    by (rule js_trim_id) (use d digits_ends(2)[OF d] in \<open>simp_all add: minus_not_white is_digit_not_white\<close>)
next
  case nonneg
  have d: "dec_digits n \<noteq> []" "list_all is_digit (dec_digits n)"
    using nonneg by (simp_all add: dec_digits_nonempty dec_digits_all_digit)
  show ?thesis unfolding nonneg(2)
    by (rule js_trim_id) (use d digits_ends[OF d] in \<open>simp_all add: is_digit_not_white\<close>)
qed

lemma unsigned_decimal_literal_digits:
  "ds \<noteq> [] \<Longrightarrow> list_all is_digit ds \<Longrightarrow> unsigned_decimal_literal ds"
  by (simp add: unsigned_decimal_literal_def takeWhile_all dropWhile_all)

lemma decimal_literal_dec_int: "decimal_literal (dec_int n)"
proof (cases n rule: dec_int_cases)
  case neg
  have d: "dec_digits (- n) \<noteq> []" "list_all is_digit (dec_digits (- n))"
    using neg by (simp_all add: dec_digits_nonempty dec_digits_all_digit)
  show ?thesis unfolding neg(2) by (simp add: decimal_literal_def unsigned_decimal_literal_digits d)
next
  case nonneg
  have d: "dec_digits n \<noteq> []" "list_all is_digit (dec_digits n)"
    using nonneg by (simp_all add: dec_digits_nonempty dec_digits_all_digit)
  then obtain c cs where cs: "dec_digits n = c # cs" by (cases "dec_digits n") auto
  with d have "is_digit c" by simp
  then have "c \<noteq> CHR ''-''" "c \<noteq> CHR ''+''" using is_digit_not_sign by blast+
  then show ?thesis unfolding nonneg(2) using unsigned_decimal_literal_digits[OF d] cs
    by (simp add: decimal_literal_def)
qed

lemma js_isNaN_dec_int: "\<not> js_isNaN (dec_int n)"
  by (simp add: js_isNaN_def js_trim_dec_int decimal_literal_dec_int)

lemma js_parseInt_10_unsigned:
  assumes "\<not> is_white c" "c \<noteq> CHR ''-''" "c \<noteq> CHR ''+''"
  shows "js_parseInt (c # cs) 10 =
    (if takeWhile (is_radix_digit 10) (c # cs) = [] then None
     else Some (digits_value 10 (takeWhile (is_radix_digit 10) (c # cs))))"
  using assms by (simp add: js_parseInt_def Let_def)

lemma js_parseInt_10_minus:
  "js_parseInt (CHR ''-'' # cs) 10 =
    (if takeWhile (is_radix_digit 10) cs = [] then None
     else Some (- digits_value 10 (takeWhile (is_radix_digit 10) cs)))"
  by (simp add: js_parseInt_def Let_def minus_not_white)

lemma takeWhile_radix10_digits: "list_all is_digit ds \<Longrightarrow> takeWhile (is_radix_digit 10) ds = ds"
  by (rule takeWhile_all) (auto simp: list_all_iff is_digit_radix10)

lemma js_parseInt_digits:
  assumes "ds \<noteq> []" "list_all is_digit ds"
  shows "js_parseInt ds 10 = Some (digits_value 10 ds)"
proof -
  obtain c cs where cs: "ds = c # cs" using assms(1) by (cases ds) auto
  with assms have c: "is_digit c" by simp
  have "js_parseInt (c # cs) 10 =
    (if takeWhile (is_radix_digit 10) (c # cs) = [] then None
     else Some (digits_value 10 (takeWhile (is_radix_digit 10) (c # cs))))"
    using c is_digit_not_sign[OF c] by (intro js_parseInt_10_unsigned) (simp_all add: is_digit_not_white)
  then show ?thesis
    unfolding cs[symmetric] takeWhile_radix10_digits[OF assms(2)] using assms(1) by simp
qed

lemma js_parseInt_dec_int: "js_parseInt (dec_int n) 10 = Some n"
proof (cases n rule: dec_int_cases)
  case neg
  have d: "dec_digits (- n) \<noteq> []" "list_all is_digit (dec_digits (- n))"
    using neg by (simp_all add: dec_digits_nonempty dec_digits_all_digit)
  have v: "digits_value 10 (dec_digits (- n)) = - n" using neg by (simp add: digits_value_dec_digits)
  show ?thesis
    unfolding neg(2) js_parseInt_10_minus takeWhile_radix10_digits[OF d(2)] using d(1) v by simp
next
  case nonneg
  have d: "dec_digits n \<noteq> []" "list_all is_digit (dec_digits n)"
    using nonneg by (simp_all add: dec_digits_nonempty dec_digits_all_digit)
  show ?thesis unfolding nonneg(2) using js_parseInt_digits[OF d] nonneg
    by (simp add: digits_value_dec_digits)
qed

section \<open>Validity, parsing and the address family\<close>

lemma new_IPv6_Inr: "new_IPv6 ps z = Inr a \<Longrightarrow> kind a = ''ipv6''"
  by (auto simp: new_IPv6_def Let_def split: if_splits)

lemma new_IPv4_Inr: "new_IPv4 os = Inr a \<Longrightarrow> a = IPv4 os \<and> length os = 4 \<and> list_all (\<lambda>octet. 0 \<le> octet \<and> octet \<le> 255) os"
  by (auto simp: new_IPv4_def split: if_splits)

lemma not_Inl_Inr: "(\<forall>e. r \<noteq> Inl e) \<Longrightarrow> \<exists>a. r = Inr a"
  by (cases r) auto

lemma IPv6_isValid_parse: "IPv6_isValid L s \<Longrightarrow> \<exists>a. IPv6_parse L s = Inr a \<and> kind a = ''ipv6''"
proof -
  assume "IPv6_isValid L s"
  then obtain ps z a where "IPv6_parser L s = Inr (Some (ps, z))" "new_IPv6 ps z = Inr a"
    by (auto simp: IPv6_isValid_def split: if_splits sum.splits option.splits dest!: not_Inl_Inr)
  then show ?thesis using new_IPv6_Inr[of ps z a] by (simp add: IPv6_parse_def)
qed

lemma IPv4_isValid_parse: "IPv4_isValid L s \<Longrightarrow> \<exists>os. IPv4_parse L s = Inr (IPv4 os) \<and> length os = 4"
proof -
  assume "IPv4_isValid L s"
  then obtain os a where "IPv4_parser L s = Inr (Some os)" "new_IPv4 os = Inr a"
    by (auto simp: IPv4_isValid_def split: sum.splits option.splits dest!: not_Inl_Inr)
  then show ?thesis using new_IPv4_Inr[of os a] by (simp add: IPv4_parse_def)
qed

lemma ipaddr_parse_IPv6: "IPv6_isValid L s \<Longrightarrow> \<exists>a. ipaddr_parse L s = Inr a \<and> kind a = ''ipv6''"
  by (simp add: ipaddr_parse_def IPv6_isValid_parse)

lemma ipaddr_parse_IPv4:
  "\<not> IPv6_isValid L s \<Longrightarrow> IPv4_isValid L s \<Longrightarrow> \<exists>os. ipaddr_parse L s = Inr (IPv4 os) \<and> length os = 4"
  by (simp add: ipaddr_parse_def IPv4_isValid_parse)

lemma getIpVersion_eq:
  "getIpVersion L ip =
     (if IPv6_isValid L ip then Inr (Some ''ipv6'')
      else if IPv4_isValid L ip then Inr (Some ''ipv4'') else Inr None)"
proof (cases "IPv6_isValid L ip")
  case True
  then show ?thesis using ipaddr_parse_IPv6[OF True]
    by (auto simp: getIpVersion_def ipaddr_isValid_def)
next
  case False
  show ?thesis
  proof (cases "IPv4_isValid L ip")
    case True
    then show ?thesis using ipaddr_parse_IPv4[OF False True] False
      by (auto simp: getIpVersion_def ipaddr_isValid_def)
  next
    case f: False
    then show ?thesis using False by (simp add: getIpVersion_def ipaddr_isValid_def)
  qed
qed

lemma js_split_chars:
  "c \<in> set s \<Longrightarrow> c = sep \<or> (\<exists>p\<in>set (js_split sep s). c \<in> set p)"
proof (induction s)
  case Nil
  then show ?case by simp
next
  case (Cons x xs)
  then show ?case by (cases "js_split sep xs") (auto split: if_splits)
qed

lemma decimal_part_digits: "decimal_part p \<Longrightarrow> p \<noteq> [] \<and> list_all is_digit p"
  by (auto simp: decimal_part_def is_digit_def code_unit_def split: list.splits if_splits)

lemma four_part_decimal_chars:
  assumes "four_part_decimal s" "c \<in> set s"
  shows "c = CHR ''.'' \<or> is_digit c"
proof -
  from js_split_chars[OF assms(2), of "CHR ''.''"] show ?thesis
  proof
    assume "\<exists>p\<in>set (js_split CHR ''.'' s). c \<in> set p"
    then obtain p where p: "p \<in> set (js_split CHR ''.'' s)" "c \<in> set p" by blast
    with assms(1) have "decimal_part p" by (auto simp: four_part_decimal_def Let_def list_all_iff)
    with p(2) show ?thesis using decimal_part_digits by (auto simp: list_all_iff)
  qed simp
qed

lemma four_part_decimal_no_colon: "four_part_decimal s \<Longrightarrow> CHR '':'' \<notin> set s"
  using four_part_decimal_chars[of s "CHR '':''"] is_digit_not_sign[of "CHR '':''"] by auto

lemma FourPartDecimal_not_IPv6: "IPv4_isValidFourPartDecimal L s \<Longrightarrow> \<not> IPv6_isValid L s"
  by (auto simp: IPv4_isValidFourPartDecimal_def IPv6_isValid_def dest: four_part_decimal_no_colon split: if_splits)

lemma FourPartDecimal_version:
  "IPv4_isValidFourPartDecimal L s \<Longrightarrow> getIpVersion L s = Inr (Some ''ipv4'')"
  using FourPartDecimal_not_IPv6[of L s]
  by (auto simp: getIpVersion_eq IPv4_isValidFourPartDecimal_def split: if_splits)

lemma validateIp_eq: "validateIp L ip = (IPv6_isValid L ip \<or> IPv4_isValidFourPartDecimal L ip)"
  by (simp add: validateIp_def)

lemma convertSubnetToCidr_eq:
  "convertSubnetToCidr L subnet ip =
     (if js_not subnet then Inr None
      else let s = js_trim (js_String subnet) in
        case (if js_isNaN s then None else js_parseInt s 10) of
          None \<Rightarrow> Inr (dotted_path L s ip)
        | Some c \<Rightarrow>
            if 0 \<le> c \<and> c \<le> (if IPv6_isValid L ip then 128 else 32) then Inr (Some c)
            else Inr (dotted_path L s ip))"
  by (auto simp: convertSubnetToCidr_def getIpVersion_eq or_ipv4_def Let_def dotted_path_def
      split: option.splits sum.splits)

section \<open>The normal form of a numeric subnet\<close>

lemma convertSubnetToCidr_Num:
  "convertSubnetToCidr L (Num n) ip =
     (if n = 0 then Inr None
      else if 0 \<le> n \<and> n \<le> (if IPv6_isValid L ip then 128 else 32) then Inr (Some n)
      else Inr (dotted_path L (dec_int n) ip))"
  by (simp add: convertSubnetToCidr_eq js_trim_dec_int js_isNaN_dec_int js_parseInt_dec_int)

lemma dec_int_nonempty: "dec_int n \<noteq> []"
  by (simp add: dec_int_def dec_digits_nonempty)

lemma convertSubnetToCidr_Str_dec:
  "convertSubnetToCidr L (Str (dec_int n)) ip =
     (if 0 \<le> n \<and> n \<le> (if IPv6_isValid L ip then 128 else 32) then Inr (Some n)
      else Inr (dotted_path L (dec_int n) ip))"
  by (simp add: convertSubnetToCidr_eq js_trim_dec_int js_isNaN_dec_int js_parseInt_dec_int dec_int_nonempty)

lemma version_ipv4_iff:
  "getIpVersion L ip = Inr (Some ''ipv4'') \<longleftrightarrow> \<not> IPv6_isValid L ip \<and> IPv4_isValid L ip"
  by (simp add: getIpVersion_eq)

lemma version_ipv6_iff: "getIpVersion L ip = Inr (Some ''ipv6'') \<longleftrightarrow> IPv6_isValid L ip"
  by (simp add: getIpVersion_eq)

lemma version_null_iff:
  "getIpVersion L ip = Inr None \<longleftrightarrow> \<not> IPv6_isValid L ip \<and> \<not> IPv4_isValid L ip"
  by (simp add: getIpVersion_eq)

lemma js_split_Cons:
  "c \<noteq> sep \<Longrightarrow> \<exists>p ps. js_split sep (c # cs) = (c # p) # ps"
  by (cases "js_split sep cs") auto

lemma ipv4Part_minus: "\<not> ipv4Part (CHR ''-'' # p)"
  by (simp add: ipv4Part_def hexRegex_def is_digit_def code_unit_def split: list.splits)

lemma IPv4_parser_ref_minus: "IPv4_parser_ref (CHR ''-'' # cs) = Inr None"
proof -
  obtain p ps where "js_split CHR ''.'' (CHR ''-'' # cs) = (CHR ''-'' # p) # ps"
    using js_split_Cons[of "CHR ''-''" "CHR ''.''" cs] by auto
  then show ?thesis by (simp add: IPv4_parser_ref_def ipv4Part_minus)
qed

lemma IPv4_isValid_ref_negative: "n < 0 \<Longrightarrow> \<not> IPv4_isValid ipaddr_ref (dec_int n)"
  by (simp add: IPv4_isValid_def ipaddr_ref_def dec_int_def IPv4_parser_ref_minus)

lemma dotted_path_ref_negative: "n < 0 \<Longrightarrow> dotted_path ipaddr_ref (dec_int n) ip = None"
  by (simp add: dotted_path_def IPv4_isValid_ref_negative)

lemma convertSubnetToCidr_family:
  assumes "IPv6_isValid L ip = IPv6_isValid L ip'"
  shows "convertSubnetToCidr L subnet ip = convertSubnetToCidr L subnet ip'"
proof -
  have dp: "dotted_path L s ip = dotted_path L s ip'" for s
    using assms by (simp add: dotted_path_def)
  show ?thesis by (simp add: convertSubnetToCidr_eq assms dp Let_def split: option.splits)
qed

section \<open>Parsing a valid address; matching an address with itself\<close>

lemma validateIp_parse: "validateIp L ip \<Longrightarrow> \<exists>a. ipaddr_parse L ip = Inr a"
proof -
  assume "validateIp L ip"
  then consider "IPv6_isValid L ip" | "\<not> IPv6_isValid L ip" "IPv4_isValid L ip"
    by (auto simp: validateIp_eq IPv4_isValidFourPartDecimal_def split: if_splits)
  then show ?thesis
  proof cases
    case 1
    then show ?thesis using ipaddr_parse_IPv6 by blast
  next
    case 2
    then show ?thesis using ipaddr_parse_IPv4 by blast
  qed
qed

lemma matchCIDR_loop_same:
  "first = second \<Longrightarrow> matchCIDR_loop first second partSize cidrBits part"
proof (induction first second partSize cidrBits part rule: matchCIDR_loop.induct)
  case (1 first second partSize cidrBits part)
  then show ?case by (subst matchCIDR_loop.simps) (simp add: Let_def)
qed

lemma matchCIDR_loop_refl: "matchCIDR_loop xs xs partSize cidrBits part"
  by (rule matchCIDR_loop_same) simp

lemma addr_match_refl: "addr_match a a c = Inr True"
  by (cases a) (simp_all add: matchCIDR_def matchCIDR_loop_refl)

lemma validateSubnet_True: "validateSubnet L subnet ip = Inr True \<longleftrightarrow> (\<exists>c. convertSubnetToCidr L subnet ip = Inr (Some c))"
  by (auto simp: validateSubnet_def split: sum.splits)

section \<open>The module functions return\<close>

lemma convertSubnetToCidr_returns: "\<exists>c. convertSubnetToCidr L subnet ip = Inr c"
  by (simp add: convertSubnetToCidr_eq Let_def split: option.splits)

lemma getIpVersion_parse: "ipaddr_parse L ip = Inr a \<Longrightarrow> getIpVersion L ip = Inr (Some (kind a))"
  by (auto simp: getIpVersion_def ipaddr_isValid_def ipaddr_parse_def split: if_splits)

lemma isSameSubnet_returns: "\<exists>b. isSameSubnet L ip1 ip2 subnet = Inr b"
proof -
  obtain c where c: "convertSubnetToCidr L subnet ip1 = Inr c"
    using convertSubnetToCidr_returns by blast
  show ?thesis
    by (auto simp: isSameSubnet_def c split: option.splits sum.splits)
qed

lemma checkIpAndSubnet_IPv6:
  assumes "IPv6_isValid L ip" "convertSubnetToCidr L subnet ip = Inr (Some cidr)"
  shows "checkIpAndSubnet L ip subnet = Inr (Some ''Invalid subnet mask.'')"
proof -
  obtain a where a: "ipaddr_parse L ip = Inr a" "kind a = ''ipv6''"
    using ipaddr_parse_IPv6[OF assms(1)] by blast
  have v: "validateIp L ip" using assms(1) by (simp add: validateIp_eq)
  show ?thesis using a v assms(2) by (simp add: checkIpAndSubnet_def addr_mask_def)
qed

section \<open>Octets and the bitwise operators\<close>

lemma sint_small: "0 \<le> z \<Longrightarrow> z \<le> 255 \<Longrightarrow> sint (word_of_int z :: 32 word) = z"
  by (simp add: sint_sbintrunc' signed_take_bit_int_eq_self)

lemma js_and_int: "byte x \<Longrightarrow> byte y \<Longrightarrow> js_and x y = x AND y"
proof -
  assume x: "byte x" and y: "byte y"
  have "0 \<le> x AND y" "x AND y \<le> 255"
    using x y AND_upper1[of x y] by (auto simp: byte_def)
  then have "sint (word_of_int (x AND y) :: 32 word) = x AND y" by (rule sint_small)
  then show ?thesis by (simp add: js_and_def of_int_and_eq)
qed

lemma js_or_int: "byte x \<Longrightarrow> byte y \<Longrightarrow> js_or x y = x OR y"
proof -
  assume x: "byte x" and y: "byte y"
  have "x OR y < 2 ^ 8" using x y by (intro OR_upper) (auto simp: byte_def)
  moreover have "0 \<le> x OR y" using x y by (simp add: byte_def)
  ultimately have "sint (word_of_int (x OR y) :: 32 word) = x OR y" by (intro sint_small) auto
  then show ?thesis by (simp add: js_or_def of_int_or_eq)
qed

lemma js_xor_int: "byte x \<Longrightarrow> byte y \<Longrightarrow> js_xor x y = x XOR y"
proof -
  assume x: "byte x" and y: "byte y"
  have "x XOR y < 2 ^ 8" using x y by (intro XOR_upper) (auto simp: byte_def)
  moreover have "0 \<le> x XOR y" using x y by (simp add: byte_def)
  ultimately have "sint (word_of_int (x XOR y) :: 32 word) = x XOR y" by (intro sint_small) auto
  then show ?thesis by (simp add: js_xor_def of_int_xor_eq)
qed

lemma byte_and: "byte x \<Longrightarrow> byte y \<Longrightarrow> byte (x AND y)"
  using AND_upper1[of x y] by (auto simp: byte_def)

lemma byte_or: "byte x \<Longrightarrow> byte y \<Longrightarrow> byte (x OR y)"
  using OR_upper[of x 8 y] by (auto simp: byte_def)

lemma byte_xor: "byte x \<Longrightarrow> byte y \<Longrightarrow> byte (x XOR y)"
  using XOR_upper[of x 8 y] by (auto simp: byte_def)

lemma byte_255: "byte 255"
  by (simp add: byte_def)

lemma bit_255: "bit (255 :: int) n \<longleftrightarrow> n < 8"
proof -
  have "(255 :: int) = mask 8" by (simp add: mask_eq_exp_minus_1)
  then have "bit (255 :: int) n \<longleftrightarrow> bit (mask 8 :: int) n" by (simp only:)
  then show ?thesis by (simp only: bit_mask_iff) simp
qed

lemma byte_zero_bit:
  assumes "byte m" "m \<noteq> 255"
  shows "\<exists>n<8. \<not> bit m n"
proof (rule ccontr)
  assume "\<not> (\<exists>n<8. \<not> bit m n)"
  then have all: "\<forall>n<8. bit m n" by blast
  have "take_bit 8 m = (255 :: int)"
  proof (rule bit_eqI)
    fix n
    show "bit (take_bit 8 m) n \<longleftrightarrow> bit (255 :: int) n"
      using all by (auto simp: bit_take_bit_iff bit_255)
  qed
  moreover have "take_bit 8 m = m"
    using assms(1) by (simp add: take_bit_int_eq_self byte_def)
  ultimately show False using assms(2) by simp
qed

lemma network_neq_broadcast:
  assumes "byte x" "byte m" "m \<noteq> 255"
  shows "js_and x m \<noteq> js_or x (js_xor m 255)"
proof
  assume e: "js_and x m = js_or x (js_xor m 255)"
  have e': "x AND m = x OR (m XOR 255)"
    using e assms by (simp add: js_and_int js_or_int js_xor_int byte_xor byte_255)
  obtain n where n: "n < 8" "\<not> bit m n" using byte_zero_bit[OF assms(2,3)] by blast
  have "bit (x AND m) n = bit (x OR (m XOR 255)) n" using e' by simp
  then show False using n by (simp add: bit_and_iff bit_or_iff bit_xor_iff bit_255)
qed

section \<open>The text of an IPv4 address\<close>

lemma js_split_no_sep: "sep \<notin> set p \<Longrightarrow> js_split sep p = [p]"
  by (induction p) auto

lemma js_split_append_sep:
  "sep \<notin> set p \<Longrightarrow> js_split sep (p @ sep # rest) = p # js_split sep rest"
  by (induction p) auto

lemma js_split_join:
  "ps \<noteq> [] \<Longrightarrow> \<forall>p\<in>set ps. sep \<notin> set p \<Longrightarrow> js_split sep (js_join [sep] ps) = ps"
proof (induction ps)
  case Nil
  then show ?case by simp
next
  case (Cons p ps)
  show ?case
  proof (cases ps)
    case Nil
    then show ?thesis using Cons.prems by (simp add: js_split_no_sep)
  next
    case (Cons q qs)
    then have "js_split sep (js_join [sep] ps) = ps" using Cons.IH Cons.prems by simp
    then show ?thesis using Cons Cons.prems by (simp add: js_split_append_sep)
  qed
qed

lemma dec_digits_inj: "0 \<le> a \<Longrightarrow> 0 \<le> b \<Longrightarrow> dec_digits a = dec_digits b \<Longrightarrow> a = b"
  by (metis digits_value_dec_digits)

lemma dec_int_nonneg: "0 \<le> a \<Longrightarrow> dec_int a = dec_digits a"
  by (simp add: dec_int_def)

lemma dec_int_no_dot: "0 \<le> a \<Longrightarrow> CHR ''.'' \<notin> set (dec_int a)"
  using dec_digits_all_digit[of a] is_digit_not_sign[of "CHR ''.''"]
  by (auto simp: dec_int_nonneg list_all_iff)

lemma map_dec_int_inj:
  "list_all (\<lambda>x. 0 \<le> x) xs \<Longrightarrow> list_all (\<lambda>x. 0 \<le> x) ys \<Longrightarrow>
   map dec_int xs = map dec_int ys \<Longrightarrow> xs = ys"
proof (induction xs arbitrary: ys)
  case Nil
  then show ?case by simp
next
  case (Cons x xs)
  then obtain y ys' where ys: "ys = y # ys'" by (cases ys) auto
  with Cons.prems have "dec_int x = dec_int y" "map dec_int xs = map dec_int ys'" by simp_all
  moreover have "0 \<le> x" "0 \<le> y" using Cons.prems ys by simp_all
  ultimately have "x = y" using dec_digits_inj by (simp add: dec_int_nonneg)
  moreover have "xs = ys'" using Cons ys by simp
  ultimately show ?case using ys by simp
qed

lemma IPv4_toString_inj:
  assumes "xs \<noteq> []" "ys \<noteq> []" "list_all (\<lambda>x. 0 \<le> x) xs" "list_all (\<lambda>x. 0 \<le> x) ys"
    "IPv4_toString (IPv4 xs) = IPv4_toString (IPv4 ys)"
  shows "xs = ys"
proof -
  have x: "js_split CHR ''.'' (js_join ''.'' (map dec_int xs)) = map dec_int xs"
    using assms(1,3) by (intro js_split_join) (auto simp: list_all_iff dec_int_no_dot)
  have y: "js_split CHR ''.'' (js_join ''.'' (map dec_int ys)) = map dec_int ys"
    using assms(2,4) by (intro js_split_join) (auto simp: list_all_iff dec_int_no_dot)
  have "map dec_int xs = js_split CHR ''.'' (IPv4_toString (IPv4 xs))"
    by (simp only: IPv4_toString_def addr.sel x)
  also have "\<dots> = js_split CHR ''.'' (IPv4_toString (IPv4 ys))"
    by (simp only: assms(5))
  also have "\<dots> = map dec_int ys"
    by (simp only: IPv4_toString_def addr.sel y)
  finally show ?thesis using assms(3,4) map_dec_int_inj by blast
qed

lemma js_parseInt_0_unsigned:
  assumes "is_digit c"
  shows "js_parseInt (c # cs) 0 =
    (if c = CHR ''0'' \<and> (case cs of b # _ \<Rightarrow> b = CHR ''x'' \<or> b = CHR ''X'' | [] \<Rightarrow> False)
     then (if takeWhile (is_radix_digit 16) (drop 1 cs) = [] then None
           else Some (digits_value 16 (takeWhile (is_radix_digit 16) (drop 1 cs))))
     else Some (digits_value 10 (takeWhile (is_radix_digit 10) (c # cs))))"
  using assms is_digit_not_sign[OF assms] is_digit_radix10[OF assms]
  by (auto simp: js_parseInt_def Let_def is_digit_not_white split: list.splits)

lemma is_digit_not_x: "is_digit c \<Longrightarrow> c \<noteq> CHR ''x'' \<and> c \<noteq> CHR ''X''"
  by (auto simp: is_digit_def code_unit_def)

lemma js_parseInt_0_digits:
  assumes "ds \<noteq> []" "list_all is_digit ds"
  shows "js_parseInt ds 0 = Some (digits_value 10 ds)"
proof -
  obtain c cs where cs: "ds = c # cs" using assms(1) by (cases ds) auto
  with assms have c: "is_digit c" and r: "list_all is_digit cs" by simp_all
  have nx: "\<not> (case cs of b # _ \<Rightarrow> b = CHR ''x'' \<or> b = CHR ''X'' | [] \<Rightarrow> False)"
    using r is_digit_not_x by (cases cs) auto
  show ?thesis
    unfolding cs js_parseInt_0_unsigned[OF c] using nx
    by (simp only: takeWhile_radix10_digits[OF assms(2)[unfolded cs]] if_False simp_thms)
qed

lemma js_parseInt_0_dec: "0 \<le> n \<Longrightarrow> js_parseInt (dec_int n) 0 = Some n"
  using js_parseInt_0_digits[of "dec_digits n"]
  by (simp add: dec_int_nonneg dec_digits_nonempty dec_digits_all_digit digits_value_dec_digits)

section \<open>Masks, network and broadcast addresses\<close>

lemma netmask_table:
  "\<forall>c\<in>set [0..32].
     IPv4_subnetMaskFromPrefixLength c = Inr (IPv4 (netmask c)) \<and>
     length (netmask c) = 4 \<and> list_all byte (netmask c) \<and> (c \<le> 31 \<longrightarrow> netmask c ! 3 \<noteq> 255)"
  by code_simp

lemma netmask_facts:
  assumes "0 \<le> c" "c \<le> 32"
  shows "IPv4_subnetMaskFromPrefixLength c = Inr (IPv4 (netmask c))"
    "length (netmask c) = 4" "list_all byte (netmask c)" "c \<le> 31 \<Longrightarrow> netmask c ! 3 \<noteq> 255"
proof -
  have "c \<in> set [0..32]" using assms by simp
  then have *: "IPv4_subnetMaskFromPrefixLength c = Inr (IPv4 (netmask c)) \<and>
     length (netmask c) = 4 \<and> list_all byte (netmask c) \<and> (c \<le> 31 \<longrightarrow> netmask c ! 3 \<noteq> 255)"
    using netmask_table by blast
  show "IPv4_subnetMaskFromPrefixLength c = Inr (IPv4 (netmask c))"
    "length (netmask c) = 4" "list_all byte (netmask c)" "c \<le> 31 \<Longrightarrow> netmask c ! 3 \<noteq> 255"
    using * by blast+
qed

lemma dec_int_chars: "0 \<le> n \<Longrightarrow> c \<in> set (dec_int n) \<Longrightarrow> is_digit c"
  using dec_digits_all_digit[of n] by (auto simp: dec_int_nonneg list_all_iff)

lemma IPv4_parseCIDR_text:
  assumes ip: "ip \<noteq> []" "\<forall>c\<in>set ip. c \<noteq> CHR ''/'' \<and> code_unit c \<noteq> 10 \<and> code_unit c \<noteq> 13"
    and n: "0 \<le> n" "n \<le> 32"
  shows "IPv4_parseCIDR L (ip @ ''/'' @ dec_int n) =
    (case IPv4_parse L ip of Inl e \<Rightarrow> Inl e | Inr a \<Rightarrow> Inr (a, n))"
proof -
  let ?d = "dec_int n"
  have d: "\<forall>c\<in>set (rev ?d). c \<noteq> CHR ''/''"
    using dec_int_chars[OF n(1)] is_digit_not_sign by auto
  have r: "rev (ip @ ''/'' @ ?d) = rev ?d @ CHR ''/'' # rev ip" by simp
  have "takeWhile (\<lambda>c. c \<noteq> CHR ''/'') (rev ?d @ CHR ''/'' # rev ip) =
      rev ?d @ takeWhile (\<lambda>c. c \<noteq> CHR ''/'') (CHR ''/'' # rev ip)"
    using d by (intro takeWhile_append2) blast
  then have t: "takeWhile (\<lambda>c. c \<noteq> CHR ''/'') (rev ?d @ CHR ''/'' # rev ip) = rev ?d"
    by simp
  have "dropWhile (\<lambda>c. c \<noteq> CHR ''/'') (rev ?d @ CHR ''/'' # rev ip) =
      dropWhile (\<lambda>c. c \<noteq> CHR ''/'') (CHR ''/'' # rev ip)"
    using d by (intro dropWhile_append2) blast
  then have dr: "dropWhile (\<lambda>c. c \<noteq> CHR ''/'') (rev ?d @ CHR ''/'' # rev ip) = CHR ''/'' # rev ip"
    by simp
  have dg: "?d \<noteq> []" "list_all is_digit ?d"
    using n(1) dec_int_chars[OF n(1)] by (auto simp: dec_int_nonempty list_all_iff)
  have nl: "list_all (\<lambda>c. code_unit c \<noteq> 10 \<and> code_unit c \<noteq> 13) (rev ip)"
    using ip(2) by (auto simp: list_all_iff)
  show ?thesis
    unfolding IPv4_parseCIDR_def r t dr
    using ip(1) dg nl n by (simp add: js_parseInt_0_dec)
qed

lemma four_part_decimal_nonempty: "four_part_decimal ip \<Longrightarrow> ip \<noteq> []"
  by (auto simp: four_part_decimal_def)

lemma four_part_decimal_cidr_chars:
  assumes "four_part_decimal ip"
  shows "\<forall>c\<in>set ip. c \<noteq> CHR ''/'' \<and> code_unit c \<noteq> 10 \<and> code_unit c \<noteq> 13"
proof
  fix c assume "c \<in> set ip"
  then have "c = CHR ''.'' \<or> is_digit c" using four_part_decimal_chars[OF assms] by blast
  then show "c \<noteq> CHR ''/'' \<and> code_unit c \<noteq> 10 \<and> code_unit c \<noteq> 13"
    by (auto simp: is_digit_def code_unit_def)
qed

lemma zerotable_range: "zerotable x = Some z \<Longrightarrow> 0 \<le> z \<and> z \<le> 8"
  by (auto simp: zerotable_def split: if_splits)

lemma prefixLength_loop_range:
  "prefixLength_loop xs stop acc = Some c \<Longrightarrow> 32 - acc - 8 * int (length xs) \<le> c \<and> c \<le> 32 - acc"
proof (induction xs arbitrary: stop acc)
  case Nil
  then show ?case by simp
next
  case (Cons x xs)
  then obtain z where z: "zerotable x = Some z"
    and r: "prefixLength_loop xs (stop \<or> z \<noteq> 8) (acc + z) = Some c"
    by (auto split: option.splits if_splits)
  from Cons.IH[OF r] zerotable_range[OF z] show ?case by simp
qed

lemma convertSubnetToCidr_range_ipv4:
  assumes "\<not> IPv6_isValid L ip" "convertSubnetToCidr L subnet ip = Inr (Some c)"
  shows "0 \<le> c \<and> c \<le> 32"
proof -
  have dp: "0 \<le> c \<and> c \<le> 32" if "dotted_path L s ip = Some c" for s
  proof -
    from that have v: "IPv4_isValid L s" by (auto simp: dotted_path_def split: if_splits)
    then obtain os where os: "IPv4_parse L s = Inr (IPv4 os)" "length os = 4"
      using IPv4_isValid_parse by blast
    with that v assms(1) have "prefixLength_loop (rev os) False 0 = Some c"
      by (simp add: dotted_path_def prefixLengthFromSubnetMask_def)
    from prefixLength_loop_range[OF this] os(2) show ?thesis by simp
  qed
  show ?thesis
    using assms dp
    by (auto simp: convertSubnetToCidr_eq Let_def split: if_splits option.splits)
qed

lemma bytes4:
  assumes "length xs = 4"
  obtains a b c d where "xs = [a, b, c, d]"
proof -
  from assms obtain a r1 where "xs = a # r1" "length r1 = 3" by (cases xs) auto
  moreover then obtain b r2 where "r1 = b # r2" "length r2 = 2" by (cases r1) auto
  moreover then obtain c r3 where "r2 = c # r3" "length r3 = 1" by (cases r2) auto
  moreover then obtain d where "r3 = [d]" by (cases r3) auto
  ultimately show ?thesis using that by simp
qed

lemma library_network:
  assumes "length os = 4" "list_all byte os" "0 \<le> n" "n \<le> 32"
  shows "map (\<lambda>i. js_and (os ! i) (netmask n ! i)) [0, 1, 2, 3] = network_address os n"
    "map (\<lambda>i. js_or (os ! i) (js_xor (netmask n ! i) 255)) [0, 1, 2, 3] = broadcast_address os n"
    "length (network_address os n) = 4" "list_all byte (network_address os n)"
    "length (broadcast_address os n) = 4" "list_all byte (broadcast_address os n)"
proof -
  obtain a b c d where os: "os = [a, b, c, d]" using bytes4[OF assms(1)] by blast
  obtain p q r s where ms: "netmask n = [p, q, r, s]" using bytes4[OF netmask_facts(2)[OF assms(3,4)]] by blast
  have bo: "byte a" "byte b" "byte c" "byte d" using assms(2) os by simp_all
  have bm: "byte p" "byte q" "byte r" "byte s" using netmask_facts(3)[OF assms(3,4)] ms by simp_all
  show "map (\<lambda>i. js_and (os ! i) (netmask n ! i)) [0, 1, 2, 3] = network_address os n"
    by (simp add: network_address_def os ms js_and_int bo bm)
  show "map (\<lambda>i. js_or (os ! i) (js_xor (netmask n ! i) 255)) [0, 1, 2, 3] = broadcast_address os n"
    by (simp add: broadcast_address_def os ms js_or_int js_xor_int bo bm byte_xor byte_255)
  show "length (network_address os n) = 4" "length (broadcast_address os n) = 4"
    by (simp_all add: network_address_def broadcast_address_def os ms)
  show "list_all byte (network_address os n)"
    by (simp add: network_address_def os ms byte_and bo bm)
  show "list_all byte (broadcast_address os n)"
    by (simp add: broadcast_address_def os ms byte_or byte_xor byte_255 bo bm)
qed

lemma new_IPv4_bytes: "length xs = 4 \<Longrightarrow> list_all byte xs \<Longrightarrow> new_IPv4 xs = Inr (IPv4 xs)"
  by (simp add: new_IPv4_def byte_def list_all_iff)

lemma IPv4_parse_bytes: "IPv4_parse L s = Inr (IPv4 os) \<Longrightarrow> length os = 4 \<and> list_all byte os"
  by (auto simp: IPv4_parse_def byte_def list_all_iff dest!: new_IPv4_Inr split: sum.splits option.splits)

lemma network_neq_broadcast_address:
  assumes "length os = 4" "list_all byte os" "0 \<le> n" "n \<le> 31"
  shows "network_address os n \<noteq> broadcast_address os n"
proof -
  have n32: "n \<le> 32" using assms(4) by simp
  obtain a b c d where os: "os = [a, b, c, d]" using bytes4[OF assms(1)] by blast
  obtain p q r s where ms: "netmask n = [p, q, r, s]" using bytes4[OF netmask_facts(2)[OF assms(3) n32]] by blast
  have bd: "byte d" using assms(2) os by simp
  have bs: "byte s" using netmask_facts(3)[OF assms(3) n32] ms by simp
  have s: "s \<noteq> 255" using netmask_facts(4)[OF assms(3) n32 assms(4)] ms by simp
  have "d AND s \<noteq> d OR (s XOR 255)"
    using network_neq_broadcast[OF bd bs s] by (simp add: js_and_int js_or_int js_xor_int bd bs byte_xor byte_255)
  then show ?thesis by (simp add: network_address_def broadcast_address_def os ms)
qed

lemma byte_nonneg_list: "list_all byte xs \<Longrightarrow> list_all (\<lambda>x. 0 \<le> x) xs"
  by (auto simp: list_all_iff byte_def)

lemma checkIpAndSubnet_IPv4:
  assumes v: "IPv4_isValidFourPartDecimal L ip"
    and c: "convertSubnetToCidr L subnet ip = Inr (Some cidr)"
  shows "\<exists>os. IPv4_parse L ip = Inr (IPv4 os) \<and>
    network_address os cidr \<noteq> [] \<and> broadcast_address os cidr \<noteq> [] \<and>
    (cidr \<le> 31 \<longrightarrow> IPv4_toString (IPv4 (network_address os cidr)) \<noteq> IPv4_toString (IPv4 (broadcast_address os cidr))) \<and>
    checkIpAndSubnet L ip subnet =
      (if ip = IPv4_toString (IPv4 (network_address os cidr)) \<and> cidr < 31
       then Inr (Some ''IP address cannot be the network address.'')
       else if ip = IPv4_toString (IPv4 (broadcast_address os cidr)) \<and> cidr < 31
       then Inr (Some ''IP address cannot be the broadcast address.'')
       else Inr None)"
proof -
  have n6: "\<not> IPv6_isValid L ip" using v by (rule FourPartDecimal_not_IPv6)
  have v4: "IPv4_isValid L ip" and fp: "four_part_decimal ip"
    using v by (auto simp: IPv4_isValidFourPartDecimal_def split: if_splits)
  obtain os where os: "IPv4_parse L ip = Inr (IPv4 os)" "length os = 4"
    using IPv4_isValid_parse[OF v4] by blast
  have bo: "list_all byte os" using IPv4_parse_bytes[OF os(1)] by simp
  have p: "ipaddr_parse L ip = Inr (IPv4 os)" using n6 v4 os by (simp add: ipaddr_parse_def)
  have r: "0 \<le> cidr" "cidr \<le> 32" using convertSubnetToCidr_range_ipv4[OF n6 c] by simp_all
  note nf = netmask_facts[OF r]
  note ln = library_network[OF os(2) bo r]
  have pc: "IPv4_parseCIDR L (ip @ CHR ''/'' # dec_int cidr) = Inr (IPv4 os, cidr)"
    using IPv4_parseCIDR_text[OF four_part_decimal_nonempty[OF fp] four_part_decimal_cidr_chars[OF fp] r, of L]
    by (simp add: os)
  have net: "IPv4_networkAddressFromCIDR L (ip @ CHR ''/'' # dec_int cidr) = Inr (IPv4 (network_address os cidr))"
    unfolding IPv4_networkAddressFromCIDR_def pc
    by (simp only: sum.case prod.case nf(1) addr.sel ln(1) new_IPv4_bytes[OF ln(3,4)])
  have bc: "IPv4_broadcastAddressFromCIDR L (ip @ CHR ''/'' # dec_int cidr) = Inr (IPv4 (broadcast_address os cidr))"
    unfolding IPv4_broadcastAddressFromCIDR_def pc
    by (simp only: sum.case prod.case nf(1) addr.sel ln(2) new_IPv4_bytes[OF ln(5,6)])
  have ne: "network_address os cidr \<noteq> []" "broadcast_address os cidr \<noteq> []"
    using ln(3,5) by auto
  have diff: "IPv4_toString (IPv4 (network_address os cidr)) \<noteq> IPv4_toString (IPv4 (broadcast_address os cidr))"
    if "cidr \<le> 31"
  proof
    assume "IPv4_toString (IPv4 (network_address os cidr)) = IPv4_toString (IPv4 (broadcast_address os cidr))"
    then have "network_address os cidr = broadcast_address os cidr"
      using ne byte_nonneg_list[OF ln(4)] byte_nonneg_list[OF ln(6)] by (intro IPv4_toString_inj)
    then show False using network_neq_broadcast_address[OF os(2) bo r(1) that] by simp
  qed
  have "checkIpAndSubnet L ip subnet =
      (if ip = IPv4_toString (IPv4 (network_address os cidr)) \<and> cidr < 31
       then Inr (Some ''IP address cannot be the network address.'')
       else if ip = IPv4_toString (IPv4 (broadcast_address os cidr)) \<and> cidr < 31
       then Inr (Some ''IP address cannot be the broadcast address.'')
       else Inr None)"
    using v by (simp add: checkIpAndSubnet_def c validateIp_eq p net bc Let_def)
  then show ?thesis using os(1) ne diff by blast
qed

section \<open>Evaluations with the reference collaborator\<close>

lemma text_zero: "js_trim ''0'' = ''0''" "\<not> js_isNaN ''0''" "js_parseInt ''0'' 10 = Some 0"
  by code_simp+

lemma shorthand_example:
  "getIpVersion ipaddr_ref ''192.168.1'' = Inr (Some ''ipv4'')" "\<not> validateIp ipaddr_ref ''192.168.1''"
  by code_simp+

lemma valid_example: "validateIp ipaddr_ref ''192.168.1.1''"
  by code_simp

lemma ref_examples_C1:
  "getIpVersion ipaddr_ref ''192.168.1.1'' = Inr (Some ''ipv4'')"
  "validateSubnet ipaddr_ref (Num 0) ''192.168.1.1'' = Inr False"
  "validateSubnet ipaddr_ref (Num 4294967040) ''192.168.1.1'' = Inr True"
  "validateSubnet ipaddr_ref (Num 33) ''192.168.1.1'' = Inr False"
  "getIpVersion ipaddr_ref ''2001:db8::1'' = Inr (Some ''ipv6'')"
  by code_simp+

lemma ref_examples_C3:
  "getIpVersion ipaddr_ref ''not an ip'' = Inr None"
  "convertSubnetToCidr ipaddr_ref (Num 64) ''not an ip'' = Inr None"
  "convertSubnetToCidr ipaddr_ref (Num 0) ''not an ip'' = Inr None"
  "convertSubnetToCidr ipaddr_ref (Num 4294967040) ''not an ip'' = Inr (Some 24)"
  "convertSubnetToCidr ipaddr_ref (Num 24) ''not an ip'' = Inr (Some 24)"
  by code_simp+

lemma mask_texts:
  "\<not> js_not (Str ''255.255.255.0'')" "js_trim ''255.255.255.0'' = ''255.255.255.0''"
  "js_isNaN ''255.255.255.0''"
  "IPv4_parser_ref ''255.255.255.0'' = Inr (Some [255, 255, 255, 0])"
  "new_IPv4 [255, 255, 255, 0] = Inr (IPv4 [255, 255, 255, 0])"
  "prefixLengthFromSubnetMask (IPv4 [255, 255, 255, 0]) = Some 24"
  "\<not> js_not (Str ''255.0.255.0'')" "js_trim ''255.0.255.0'' = ''255.0.255.0''"
  "js_isNaN ''255.0.255.0''"
  "IPv4_parser_ref ''255.0.255.0'' = Inr (Some [255, 0, 255, 0])"
  "new_IPv4 [255, 0, 255, 0] = Inr (IPv4 [255, 0, 255, 0])"
  "prefixLengthFromSubnetMask (IPv4 [255, 0, 255, 0]) = None"
  by code_simp+

lemma ref_parser: "IPv4_parser ipaddr_ref = IPv4_parser_ref"
  by (simp add: ipaddr_ref_def)

lemma ref_examples_C7:
  "isPublicIp ipaddr_ref ''8.8.8.8''"
  "\<not> isPublicIp ipaddr_ref ''192.168.1.1''"
  "\<not> isPublicIp ipaddr_ref ''10.0.0.1''"
  "\<not> isPublicIp ipaddr_ref ''172.16.0.1''"
  "\<not> isPublicIp ipaddr_ref ''not an ip''"
  "validateIp ipaddr_ref ''8.8.8.8''"
  "ipaddr_parse ipaddr_ref ''8.8.8.8'' = Inr (IPv4 [8, 8, 8, 8])"
  "addr_range ipaddr_ref (IPv4 [8, 8, 8, 8]) = Inr ''unicast''"
  "ipaddr_parse ipaddr_ref ''192.168.1.1'' = Inr (IPv4 [192, 168, 1, 1])"
  "addr_range ipaddr_ref (IPv4 [192, 168, 1, 1]) = Inr ''private''"
  "addr_range ipaddr_ref (IPv4 [127, 0, 0, 1]) = Inr ''loopback''"
  "addr_range ipaddr_ref (IPv4 [169, 254, 3, 4]) = Inr ''linkLocal''"
  "addr_range ipaddr_ref (IPv4 [224, 0, 0, 251]) = Inr ''multicast''"
  "addr_range ipaddr_ref (IPv4 [240, 0, 0, 1]) = Inr ''reserved''"
  by code_simp+

lemma ref_examples_C8:
  "validateSubnet ipaddr_ref (Str ''255.255.255.0'') ''192.168.1.1'' = Inr True"
  "validateIp ipaddr_ref ''2001:db8::1''"
  "validateSubnet ipaddr_ref (Num 64) ''2001:db8::1'' = Inr True"
  by code_simp+

lemma ref_examples_C9:
  "isSameSubnet ipaddr_ref ''192.168.1.1'' ''::1'' (Num 24) = Inr False"
  "validateIp ipaddr_ref ''::1''"
  "getIpVersion ipaddr_ref ''::1'' = Inr (Some ''ipv6'')"
  "convertSubnetToCidr ipaddr_ref (Num 24) ''192.168.1.1'' = Inr (Some 24)"
  "convertSubnetToCidr ipaddr_ref (Num 64) ''192.168.1.1'' = Inr None"
  "validateIp ipaddr_ref ''192.168.1.100''"
  by code_simp+

lemma ref_examples_C5:
  "checkIpAndSubnet ipaddr_ref ''10.0.0.0'' (Num 31) = Inr None"
  "checkIpAndSubnet ipaddr_ref ''10.0.0.1'' (Num 31) = Inr None"
  "checkIpAndSubnet ipaddr_ref ''192.168.1.0'' (Num 24) = Inr (Some ''IP address cannot be the network address.'')"
  "checkIpAndSubnet ipaddr_ref ''192.168.1.255'' (Num 24) = Inr (Some ''IP address cannot be the broadcast address.'')"
  "checkIpAndSubnet ipaddr_ref ''192.168.1.1'' (Num 24) = Inr None"
  by code_simp+

lemma ref_examples_C5_inputs:
  "IPv4_isValidFourPartDecimal ipaddr_ref ''192.168.1.0''"
  "IPv4_parse ipaddr_ref ''192.168.1.0'' = Inr (IPv4 [192, 168, 1, 0])"
  "convertSubnetToCidr ipaddr_ref (Num 24) ''192.168.1.0'' = Inr (Some 24)"
  "IPv4_toString (IPv4 (network_address [192, 168, 1, 0] 24)) = ''192.168.1.0''"
  "IPv4_isValidFourPartDecimal ipaddr_ref ''192.168.1.255''"
  "IPv4_parse ipaddr_ref ''192.168.1.255'' = Inr (IPv4 [192, 168, 1, 255])"
  "convertSubnetToCidr ipaddr_ref (Num 24) ''192.168.1.255'' = Inr (Some 24)"
  "IPv4_toString (IPv4 (broadcast_address [192, 168, 1, 255] 24)) = ''192.168.1.255''"
  "IPv4_isValidFourPartDecimal ipaddr_ref ''10.0.0.0''"
  "convertSubnetToCidr ipaddr_ref (Num 31) ''10.0.0.0'' = Inr (Some 31)"
  by code_simp+

lemma ref_examples_C5_zero:
  "IPv4_isValidFourPartDecimal ipaddr_ref ''0.0.0.0''"
  "IPv4_parse ipaddr_ref ''0.0.0.0'' = Inr (IPv4 [0, 0, 0, 0])"
  "IPv4_toString (IPv4 (network_address [0, 0, 0, 0] 0)) = ''0.0.0.0''"
  "checkIpAndSubnet ipaddr_ref ''0.0.0.0'' (Num 0) = Inr (Some ''Invalid IP or Subnet format.'')"
  by code_simp+

lemma ref_examples_C2:
  "IPv6_isValid ipaddr_ref ''2001:db8::''"
  "ipaddr_parse ipaddr_ref ''2001:db8::'' = Inr (IPv6 [8193, 3512, 0, 0, 0, 0, 0, 0] None)"
  "ipv6_network_address [8193, 3512, 0, 0, 0, 0, 0, 0] 64 = [8193, 3512, 0, 0, 0, 0, 0, 0]"
  "convertSubnetToCidr ipaddr_ref (Num 64) ''2001:db8::'' = Inr (Some 64)"
  "checkIpAndSubnet ipaddr_ref ''2001:db8::'' (Num 64) = Inr (Some ''Invalid subnet mask.'')"
  "IPv6_isValid ipaddr_ref ''::1''"
  "convertSubnetToCidr ipaddr_ref (Num 127) ''::1'' = Inr (Some 127)"
  by code_simp+

lemma mask_numbers_examples:
  "(64 :: int) \<notin> set mask_numbers" "(- 1 :: int) \<notin> set mask_numbers"
  "(4294967040 :: int) \<in> set mask_numbers"
  by code_simp+

section \<open>The two masks of the specification\<close>

lemma dotted_path_masks:
  assumes "IPv4_parser L = IPv4_parser_ref" "\<not> IPv6_isValid L ip"
  shows "dotted_path L ''255.255.255.0'' ip = Some 24" "dotted_path L ''255.0.255.0'' ip = None"
  using assms by (simp_all add: dotted_path_def IPv4_isValid_def IPv4_parse_def mask_texts)

lemma dotted_decimal_masks:
  "IPv4_parser L = IPv4_parser_ref \<and> getIpVersion L ip = Inr (Some ''ipv4'') \<longrightarrow>
     convertSubnetToCidr L (Str ''255.255.255.0'') ip = Inr (Some 24) \<and>
     convertSubnetToCidr L (Str ''255.0.255.0'') ip = Inr None \<and>
     validateSubnet L (Str ''255.255.255.0'') ip = Inr True \<and>
     validateSubnet L (Str ''255.0.255.0'') ip = Inr False"
proof
  assume a: "IPv4_parser L = IPv4_parser_ref \<and> getIpVersion L ip = Inr (Some ''ipv4'')"
  then have n6: "\<not> IPv6_isValid L ip" by (simp add: version_ipv4_iff)
  have c1: "convertSubnetToCidr L (Str ''255.255.255.0'') ip = Inr (Some 24)"
    using a n6 by (simp add: convertSubnetToCidr_eq mask_texts dotted_path_masks)
  have c2: "convertSubnetToCidr L (Str ''255.0.255.0'') ip = Inr None"
    using a n6 by (simp add: convertSubnetToCidr_eq mask_texts dotted_path_masks)
  show "convertSubnetToCidr L (Str ''255.255.255.0'') ip = Inr (Some 24) \<and>
     convertSubnetToCidr L (Str ''255.0.255.0'') ip = Inr None \<and>
     validateSubnet L (Str ''255.255.255.0'') ip = Inr True \<and>
     validateSubnet L (Str ''255.0.255.0'') ip = Inr False"
    using c1 c2 by (simp add: validateSubnet_def)
qed

section \<open>A number read as a one-part IPv4 address\<close>

text \<open>
  The reference grammar reads the decimal text of a number up to \<open>2 ^ 32 - 1\<close> as an IPv4
  address in one part, whose octets are the four bytes of the number.  Such octets are a
  contiguous mask only for 0 and for the numbers \<open>2 ^ 32 - 2 ^ k\<close>.
\<close>

lemma byte_at_eq:
  assumes "0 \<le> v" "v < 2 ^ 32" "s \<in> {0, 8, 16, 24}"
  shows "byte_at v s = (v div 2 ^ nat s) mod 256"
proof -
  let ?w = "word_of_int v :: 32 word"
  let ?k = "nat s"
  have k: "?k \<le> 24" "nat (s mod 32) = ?k" using assms(3) by auto
  have "byte_at v s = sint (signed_drop_bit ?k ?w AND 255)"
    by (simp add: byte_at_def js_and_def js_shr_def k)
  also have "\<dots> = take_bit 8 (drop_bit ?k v)"
  proof (rule bit_eqI)
    fix n
    show "bit (sint (signed_drop_bit ?k ?w AND 255)) n \<longleftrightarrow> bit (take_bit 8 (drop_bit ?k v)) n"
      using k(1)
      by (auto simp: bit_sint_iff bit_and_iff bit_signed_drop_bit_iff bit_255 bit_word_of_int_iff
          bit_take_bit_iff bit_drop_bit_eq ac_simps)
  qed
  also have "\<dots> = (v div 2 ^ ?k) mod 256"
    by (simp add: take_bit_eq_mod drop_bit_eq_div)
  finally show ?thesis .
qed

lemma zerotable_octet:
  "zerotable b = Some z \<Longrightarrow> 0 \<le> z \<and> z \<le> 8 \<and> b = 256 - 2 ^ nat z"
  by (auto simp: zerotable_def split: if_splits)

lemma prefixLength_loop_stop:
  "prefixLength_loop xs True acc = Some c \<Longrightarrow>
     foldr (\<lambda>b a. b + 256 * a) xs 0 = 256 ^ length xs - 1 \<and> c = 32 - acc"
proof (induction xs arbitrary: acc)
  case Nil
  then show ?case by simp
next
  case (Cons b xs)
  from Cons.prems obtain z where z: "zerotable b = Some z" and z0: "z = 0"
    and r: "prefixLength_loop xs True (acc + z) = Some c"
    by (auto split: option.splits if_splits)
  from zerotable_octet[OF z] z0 have b: "b = 255" by simp
  from Cons.IH[OF r] have "foldr (\<lambda>b a. b + 256 * a) xs 0 = 256 ^ length xs - 1" "c = 32 - acc"
    using z0 by simp_all
  then show ?case using b by simp
qed

lemma prefixLength_loop_value:
  "prefixLength_loop xs False acc = Some c \<Longrightarrow>
     foldr (\<lambda>b a. b + 256 * a) xs 0 = 256 ^ length xs - 2 ^ nat (32 - acc - c) \<and> 0 \<le> 32 - acc - c"
proof (induction xs arbitrary: acc)
  case Nil
  then show ?case by simp
next
  case (Cons b xs)
  from Cons.prems obtain z where z: "zerotable b = Some z"
    and r: "prefixLength_loop xs (z \<noteq> 8) (acc + z) = Some c"
    by (auto split: option.splits if_splits)
  note zb = zerotable_octet[OF z]
  show ?case
  proof (cases "z = 8")
    case True
    with r have "prefixLength_loop xs False (acc + 8) = Some c" by simp
    from Cons.IH[OF this]
    have ih: "foldr (\<lambda>b a. b + 256 * a) xs 0 = 256 ^ length xs - 2 ^ nat (32 - (acc + 8) - c)"
      and k: "0 \<le> 32 - (acc + 8) - c" by simp_all
    have n: "nat (32 - acc - c) = nat (32 - (acc + 8) - c) + 8" using k by simp
    have b: "b = 0" using zb True by simp
    have "foldr (\<lambda>b a. b + 256 * a) (b # xs) 0 = 256 * (256 ^ length xs - 2 ^ nat (32 - (acc + 8) - c))"
      using ih b by simp
    also have "\<dots> = 256 ^ length (b # xs) - 2 ^ (nat (32 - (acc + 8) - c) + 8)"
      by (simp add: power_add right_diff_distrib)
    finally show ?thesis using k unfolding n by simp
  next
    case False
    with r have "prefixLength_loop xs True (acc + z) = Some c" by simp
    from prefixLength_loop_stop[OF this]
    have v: "foldr (\<lambda>b a. b + 256 * a) xs 0 = 256 ^ length xs - 1" and c: "c = 32 - (acc + z)"
      by simp_all
    have n: "32 - acc - c = z" using c by simp
    have "foldr (\<lambda>b a. b + 256 * a) (b # xs) 0 = (256 - 2 ^ nat z) + 256 * (256 ^ length xs - 1)"
      using v zb by simp
    also have "\<dots> = 256 ^ length (b # xs) - 2 ^ nat z"
      by (simp add: right_diff_distrib)
    finally show ?thesis using zb unfolding n by simp
  qed
qed

lemma bytes_sum:
  fixes v :: int
  assumes "0 \<le> v" "v < 2 ^ 32"
  shows "v mod 256 + 256 * ((v div 2 ^ 8) mod 256 + 256 * ((v div 2 ^ 16) mod 256 + 256 * ((v div 2 ^ 24) mod 256))) = v"
proof -
  define a where "a = v div 256"
  define b where "b = a div 256"
  define c where "c = b div 256"
  have d8: "v div 2 ^ 8 = a" by (simp add: a_def)
  have d16: "v div 2 ^ 16 = b"
    using zdiv_zmult2_eq[of 256 v 256] by (simp add: a_def b_def)
  have d24: "v div 2 ^ 24 = c"
    using zdiv_zmult2_eq[of 65536 v 256] d16 by (simp add: c_def)
  have "0 \<le> c" "c < 256" using assms d24[symmetric] by simp_all
  then have c: "c mod 256 = c" by simp
  define m1 where "m1 = v mod 256"
  define m2 where "m2 = a mod 256"
  define m3 where "m3 = b mod 256"
  have "v = 256 * a + m1" by (simp add: a_def m1_def)
  moreover have "a = 256 * b + m2" by (simp add: b_def m2_def)
  moreover have "b = 256 * c + m3" by (simp add: c_def m3_def)
  ultimately have "m1 + 256 * (m2 + 256 * (m3 + 256 * c)) = v" by simp
  then show ?thesis unfolding d8 d16 d24 c m1_def m2_def m3_def .
qed

lemma mask_numbers_iff: "v \<in> set mask_numbers \<longleftrightarrow> (\<exists>k<32. v = 2 ^ 32 - 2 ^ k)"
  by (auto simp: mask_numbers_def)

lemma byte_at_values:
  assumes "0 \<le> v" "v < 2 ^ 32"
  shows "byte_at v 0 = v mod 256" "byte_at v 8 = (v div 2 ^ 8) mod 256"
    "byte_at v 16 = (v div 2 ^ 16) mod 256" "byte_at v 24 = (v div 2 ^ 24) mod 256"
proof -
  show "byte_at v 0 = v mod 256" using byte_at_eq[OF assms, of 0] by simp
  show "byte_at v 8 = (v div 2 ^ 8) mod 256" using byte_at_eq[OF assms, of 8] by simp
  show "byte_at v 16 = (v div 2 ^ 16) mod 256" using byte_at_eq[OF assms, of 16] by simp
  show "byte_at v 24 = (v div 2 ^ 24) mod 256" using byte_at_eq[OF assms, of 24] by simp
qed

lemma prefixLength_bytes:
  assumes "0 \<le> v" "v < 2 ^ 32"
    and "prefixLength_loop [byte_at v 0, byte_at v 8, byte_at v 16, byte_at v 24] False 0 = Some c"
  shows "v = 0 \<or> v \<in> set mask_numbers"
proof -
  let ?xs = "[byte_at v 0, byte_at v 8, byte_at v 16, byte_at v 24]"
  have "foldr (\<lambda>b a. b + 256 * a) ?xs 0 =
      byte_at v 0 + 256 * (byte_at v 8 + 256 * (byte_at v 16 + 256 * byte_at v 24))"
    by simp
  also have "\<dots> = v"
    unfolding byte_at_values[OF assms(1,2)] by (rule bytes_sum[OF assms(1,2)])
  finally have s: "foldr (\<lambda>b a. b + 256 * a) ?xs 0 = v" .
  have l: "(256 :: int) ^ length ?xs = 2 ^ 32" by simp
  from prefixLength_loop_value[OF assms(3)]
  have "foldr (\<lambda>b a. b + 256 * a) ?xs 0 = 256 ^ length ?xs - 2 ^ nat (32 - 0 - c)"
    and k: "0 \<le> 32 - 0 - c" by blast+
  then have v: "v = 2 ^ 32 - 2 ^ nat (32 - c)" unfolding s l by simp
  from prefixLength_loop_range[OF assms(3)] have "nat (32 - c) \<le> 32" by (simp add: nat_le_iff)
  then consider "nat (32 - c) = 32" | "nat (32 - c) < 32" by linarith
  then show ?thesis
  proof cases
    case 1
    have "v = 0" unfolding v 1 by simp
    then show ?thesis ..
  next
    case 2
    with v have "\<exists>k<32. v = 2 ^ 32 - 2 ^ k" by blast
    then show ?thesis unfolding mask_numbers_iff ..
  qed
qed

lemma char_of_digit_not_zero: "1 \<le> d \<Longrightarrow> d < 10 \<Longrightarrow> char_of (48 + d :: int) \<noteq> CHR ''0''"
proof
  assume d: "1 \<le> d" "d < 10" and "char_of (48 + d) = CHR ''0''"
  then have "code_unit (char_of (48 + d)) = code_unit CHR ''0''" by simp
  with d show False by (simp add: code_unit_char_of) (simp add: code_unit_def)
qed

lemma dec_digits_leading:
  "1 \<le> n \<Longrightarrow> \<exists>c cs. dec_digits n = c # cs \<and> c \<noteq> CHR ''0''"
proof (induction n rule: dec_digits.induct)
  case (1 n)
  show ?case
  proof (cases "n < 10")
    case True
    with 1(2) show ?thesis by (subst dec_digits.simps) (simp add: char_of_digit_not_zero)
  next
    case False
    then have "\<exists>c cs. dec_digits (n div 10) = c # cs \<and> c \<noteq> CHR ''0''" using 1 by simp
    then obtain c cs where "dec_digits (n div 10) = c # cs" "c \<noteq> CHR ''0''" by blast
    then show ?thesis using False by (subst dec_digits.simps) simp
  qed
qed

lemma hexRegex_digits: "list_all is_digit p \<Longrightarrow> \<not> hexRegex p"
  by (auto simp: hexRegex_def is_digit_def code_unit_def split: list.splits)

lemma parseIntAuto_dec_digits:
  assumes "1 \<le> n"
  shows "parseIntAuto (dec_digits n) = Inr n"
proof -
  have d: "dec_digits n \<noteq> []" "list_all is_digit (dec_digits n)"
    using assms by (simp_all add: dec_digits_nonempty dec_digits_all_digit)
  obtain c cs where c: "dec_digits n = c # cs" "c \<noteq> CHR ''0''"
    using dec_digits_leading[OF assms] by blast
  have z: "\<not> (case dec_digits n of a # b # _ \<Rightarrow> a = CHR ''0'' \<and> is_digit b | _ \<Rightarrow> False)"
    using c by (simp split: list.splits)
  have "js_parseInt (dec_digits n) 10 = Some n"
    using js_parseInt_digits[OF d] assms by (simp add: digits_value_dec_digits)
  then show ?thesis
    using z hexRegex_digits[OF d(2)] by (simp add: parseIntAuto_def number_of_def)
qed

lemma IPv4_parser_ref_dec_digits:
  assumes "1 \<le> n"
  shows "IPv4_parser_ref (dec_digits n) =
    (if n > 4294967295 then Inl Error
     else Inr (Some [byte_at n 24, byte_at n 16, byte_at n 8, byte_at n 0]))"
proof -
  have d: "dec_digits n \<noteq> []" "list_all is_digit (dec_digits n)"
    using assms by (simp_all add: dec_digits_nonempty dec_digits_all_digit)
  have "CHR ''.'' \<notin> set (dec_digits n)"
    using dec_int_no_dot[of n] assms by (simp add: dec_int_nonneg)
  then have s: "js_split CHR ''.'' (dec_digits n) = [dec_digits n]" by (rule js_split_no_sep)
  have p: "ipv4Part (dec_digits n)" using d by (simp add: ipv4Part_def)
  show ?thesis
    using assms by (simp add: IPv4_parser_ref_def s p parseIntAuto_dec_digits)
qed

lemma dotted_path_ref_number:
  assumes "1 \<le> n" "n \<notin> set mask_numbers"
  shows "dotted_path ipaddr_ref (dec_int n) ip = None"
proof (cases "n > 4294967295")
  case True
  then have "\<not> IPv4_isValid ipaddr_ref (dec_int n)"
    using assms(1) by (simp add: IPv4_isValid_def ref_parser dec_int_nonneg IPv4_parser_ref_dec_digits)
  then show ?thesis by (simp add: dotted_path_def)
next
  case False
  let ?os = "[byte_at n 24, byte_at n 16, byte_at n 8, byte_at n 0]"
  have b: "0 \<le> n" "n < 2 ^ 32" using assms(1) False by simp_all
  have "prefixLength_loop [byte_at n 0, byte_at n 8, byte_at n 16, byte_at n 24] False 0 = None"
  proof (rule ccontr)
    assume "prefixLength_loop [byte_at n 0, byte_at n 8, byte_at n 16, byte_at n 24] False 0 \<noteq> None"
    then obtain c where "prefixLength_loop [byte_at n 0, byte_at n 8, byte_at n 16, byte_at n 24] False 0 = Some c"
      by blast
    from prefixLength_bytes[OF b this] assms show False by simp
  qed
  then have l: "prefixLengthFromSubnetMask (IPv4 ?os) = None"
    by (simp add: prefixLengthFromSubnetMask_def)
  have p: "IPv4_parse ipaddr_ref (dec_int n) = new_IPv4 ?os"
    using assms(1) False by (simp add: IPv4_parse_def ref_parser dec_int_nonneg IPv4_parser_ref_dec_digits)
  show ?thesis
  proof (cases "new_IPv4 ?os")
    case (Inl e)
    then show ?thesis by (simp add: dotted_path_def p)
  next
    case (Inr a)
    with new_IPv4_Inr[OF Inr] l show ?thesis by (simp add: dotted_path_def p)
  qed
qed

section \<open>The claims\<close>

text \<open>
  C1, as amended.  With \<open>ip\<close> of the IPv4 family (\<^verbatim>\<open>getIpVersion(ip)\<close> is \<^verbatim>\<open>'ipv4'\<close>) and an
  integer \<open>1 \<le> n \<le> 32\<close>, and with \<open>ip\<close> of the IPv6 family and \<open>1 \<le> n \<le> 128\<close>,
  \<^verbatim>\<open>validateSubnet(n, ip)\<close> is true.  The number 0 is refused for every \<open>ip\<close> (the falsy
  check of line 40).  Outside the range of the family the answer is false: for an IPv6
  \<open>ip\<close> at every integer below 0 or above 128, and for an IPv4 \<open>ip\<close> at every integer below
  0 and at every integer above 32 that is not one of the 32 numbers \<open>2 ^ 32 - 2 ^ k\<close>
  (\<open>0 \<le> k \<le> 31\<close>); 33 is the example.  Nothing is stated about those 32 numbers.
  (Integers are taken below \<open>10 ^ 21\<close> in size, where \<^verbatim>\<open>String\<close> prints plain digits; the
  IPv4 part outside the range is for the IPv4 grammar of \<^verbatim>\<open>ipaddr.js\<close>, the rest for every
  grammar.)
\<close>

theorem C1_validateSubnet_integer_cidr:
  "(getIpVersion L ip = Inr (Some ''ipv4'') \<and> 1 \<le> n \<and> n \<le> 32 \<longrightarrow>
      validateSubnet L (Num n) ip = Inr True) \<and>
   (getIpVersion L ip = Inr (Some ''ipv6'') \<and> 1 \<le> n \<and> n \<le> 128 \<longrightarrow>
      validateSubnet L (Num n) ip = Inr True) \<and>
   validateSubnet L (Num 0) ip = Inr False \<and>
   (getIpVersion L ip = Inr (Some ''ipv6'') \<and> (n < 0 \<or> 128 < n) \<and> \<bar>n\<bar> < 10 ^ 21 \<longrightarrow>
      validateSubnet L (Num n) ip = Inr False) \<and>
   (getIpVersion ipaddr_ref ip = Inr (Some ''ipv4'') \<and> (n < 0 \<or> 32 < n) \<and> \<bar>n\<bar> < 10 ^ 21 \<and>
    n \<notin> set mask_numbers \<longrightarrow>
      validateSubnet ipaddr_ref (Num n) ip = Inr False) \<and>
   validateSubnet ipaddr_ref (Num 33) ''192.168.1.1'' = Inr False"
proof (intro conjI impI)
  assume "getIpVersion L ip = Inr (Some ''ipv4'') \<and> 1 \<le> n \<and> n \<le> 32"
  then show "validateSubnet L (Num n) ip = Inr True"
    by (simp add: validateSubnet_def convertSubnetToCidr_Num version_ipv4_iff)
next
  assume "getIpVersion L ip = Inr (Some ''ipv6'') \<and> 1 \<le> n \<and> n \<le> 128"
  then show "validateSubnet L (Num n) ip = Inr True"
    by (simp add: validateSubnet_def convertSubnetToCidr_Num version_ipv6_iff)
next
  show "validateSubnet L (Num 0) ip = Inr False"
    by (simp add: validateSubnet_def convertSubnetToCidr_Num)
next
  assume "getIpVersion L ip = Inr (Some ''ipv6'') \<and> (n < 0 \<or> 128 < n) \<and> \<bar>n\<bar> < 10 ^ 21"
  then show "validateSubnet L (Num n) ip = Inr False"
    by (auto simp: validateSubnet_def convertSubnetToCidr_Num version_ipv6_iff dotted_path_def)
next
  assume h: "getIpVersion ipaddr_ref ip = Inr (Some ''ipv4'') \<and> (n < 0 \<or> 32 < n) \<and> \<bar>n\<bar> < 10 ^ 21 \<and>
    n \<notin> set mask_numbers"
  then have v4: "\<not> IPv6_isValid ipaddr_ref ip" by (simp add: version_ipv4_iff)
  have d: "dotted_path ipaddr_ref (dec_int n) ip = None"
  proof (cases "n < 0")
    case True
    then show ?thesis by (rule dotted_path_ref_negative)
  next
    case False
    with h have "1 \<le> n" "n \<notin> set mask_numbers" by simp_all
    then show ?thesis by (rule dotted_path_ref_number)
  qed
  from h have "n \<noteq> 0" "\<not> (0 \<le> n \<and> n \<le> 32)" by auto
  then show "validateSubnet ipaddr_ref (Num n) ip = Inr False"
    using v4 d by (simp add: validateSubnet_def convertSubnetToCidr_Num)
next
  show "validateSubnet ipaddr_ref (Num 33) ''192.168.1.1'' = Inr False"
    by (rule ref_examples_C1)
qed

theorem C1_witness:
  "getIpVersion ipaddr_ref ''192.168.1.1'' = Inr (Some ''ipv4'') \<and>
   validateSubnet ipaddr_ref (Num 24) ''192.168.1.1'' = Inr True \<and>
   getIpVersion ipaddr_ref ''2001:db8::1'' = Inr (Some ''ipv6'') \<and>
   validateSubnet ipaddr_ref (Num 64) ''2001:db8::1'' = Inr True \<and>
   validateSubnet ipaddr_ref (Num 129) ''2001:db8::1'' = Inr False \<and>
   (64 :: int) \<notin> set mask_numbers \<and>
   validateSubnet ipaddr_ref (Num 64) ''192.168.1.1'' = Inr False \<and>
   validateSubnet ipaddr_ref (Num (- 1)) ''192.168.1.1'' = Inr False"
proof -
  note v4 = ref_examples_C1(1) and v6 = ref_examples_C1(5)
  note m = mask_numbers_examples(1) and m' = mask_numbers_examples(2)
  have a: "validateSubnet ipaddr_ref (Num 24) ''192.168.1.1'' = Inr True"
    using C1_validateSubnet_integer_cidr [of ipaddr_ref "''192.168.1.1''" 24] v4 by simp
  have b: "validateSubnet ipaddr_ref (Num 64) ''2001:db8::1'' = Inr True"
    using C1_validateSubnet_integer_cidr [of ipaddr_ref "''2001:db8::1''" 64] v6 by simp
  have c: "validateSubnet ipaddr_ref (Num 129) ''2001:db8::1'' = Inr False"
    using C1_validateSubnet_integer_cidr [of ipaddr_ref "''2001:db8::1''" 129] v6 by simp
  have "getIpVersion ipaddr_ref ''192.168.1.1'' = Inr (Some ''ipv4'') \<and> ((64 :: int) < 0 \<or> (32 :: int) < 64) \<and>
      \<bar>64 :: int\<bar> < 10 ^ 21 \<and> (64 :: int) \<notin> set mask_numbers"
    using v4 m by simp
  then have d: "validateSubnet ipaddr_ref (Num 64) ''192.168.1.1'' = Inr False"
    using C1_validateSubnet_integer_cidr [of ipaddr_ref "''192.168.1.1''" 64] by blast
  have "getIpVersion ipaddr_ref ''192.168.1.1'' = Inr (Some ''ipv4'') \<and> ((- 1 :: int) < 0 \<or> (32 :: int) < - 1) \<and>
      \<bar>- 1 :: int\<bar> < 10 ^ 21 \<and> (- 1 :: int) \<notin> set mask_numbers"
    using v4 m' by simp
  then have e: "validateSubnet ipaddr_ref (Num (- 1)) ''192.168.1.1'' = Inr False"
    using C1_validateSubnet_integer_cidr [of ipaddr_ref "''192.168.1.1''" "- 1"] by blast
  show ?thesis using v4 v6 m a b c d e by blast
qed

text \<open>
  The claim as stated fails on an IPv4 address at the integer 0, which lies in \<open>[0,32]\<close> and
  is refused, and at 4294967040, which lies outside and is accepted: its decimal text
  falls through to the branch for dotted-decimal masks, where it is read as the one-part
  form of \<^verbatim>\<open>255.255.255.0\<close>.
\<close>

theorem C1_counterexample:
  "getIpVersion ipaddr_ref ''192.168.1.1'' = Inr (Some ''ipv4'') \<and>
   validateIp ipaddr_ref ''192.168.1.1'' \<and>
   validateSubnet ipaddr_ref (Num 0) ''192.168.1.1'' = Inr False \<and>
   validateSubnet ipaddr_ref (Num 4294967040) ''192.168.1.1'' = Inr True"
  using ref_examples_C1 valid_example by simp

text \<open>
  C2, on the code.  The claim is that an IPv6-valid \<open>ip\<close> that equals its own network
  address under a prefix length \<open>cidr < 127\<close> gets \<^verbatim>\<open>"IP address cannot be the network
  address."\<close>, and that the message is never returned for \<open>cidr\<close> 127 or 128.  The code does
  not do the first: line 144 calls \<^verbatim>\<open>addr.mask(cidr)\<close>, a method the address objects do not
  have, and the \<^verbatim>\<open>catch\<close> of line 150 turns the \<^verbatim>\<open>TypeError\<close> into \<^verbatim>\<open>"Invalid subnet mask."\<close>.
  So for every IPv6-valid \<open>ip\<close> and every subnet value that normalizes to a prefix length,
  \<^verbatim>\<open>checkIpAndSubnet\<close> returns \<^verbatim>\<open>"Invalid subnet mask."\<close>, and for no subnet value at all does
  an IPv6-valid \<open>ip\<close> get the network-address message.  The input \<^verbatim>\<open>("2001:db8::", 64)\<close> shows
  it: the address is IPv6-valid, its eight parts are their own network address under 64
  bits, 64 normalizes to 64, and the result is \<^verbatim>\<open>"Invalid subnet mask."\<close>.
\<close>

theorem C2_ipv6_branch_invalid_mask:
  "(IPv6_isValid L ip \<and> convertSubnetToCidr L subnet ip = Inr (Some cidr) \<longrightarrow>
      checkIpAndSubnet L ip subnet = Inr (Some ''Invalid subnet mask.'')) \<and>
   (IPv6_isValid L ip \<longrightarrow>
      checkIpAndSubnet L ip subnet \<noteq> Inr (Some ''IP address cannot be the network address.'')) \<and>
   IPv6_isValid ipaddr_ref ''2001:db8::'' \<and>
   ipaddr_parse ipaddr_ref ''2001:db8::'' = Inr (IPv6 [8193, 3512, 0, 0, 0, 0, 0, 0] None) \<and>
   ipv6_network_address [8193, 3512, 0, 0, 0, 0, 0, 0] 64 = [8193, 3512, 0, 0, 0, 0, 0, 0] \<and>
   convertSubnetToCidr ipaddr_ref (Num 64) ''2001:db8::'' = Inr (Some 64) \<and>
   checkIpAndSubnet ipaddr_ref ''2001:db8::'' (Num 64) = Inr (Some ''Invalid subnet mask.'')"
proof (intro conjI impI)
  assume "IPv6_isValid L ip \<and> convertSubnetToCidr L subnet ip = Inr (Some cidr)"
  then show "checkIpAndSubnet L ip subnet = Inr (Some ''Invalid subnet mask.'')"
    using checkIpAndSubnet_IPv6[of L ip subnet cidr] by blast
next
  assume v: "IPv6_isValid L ip"
  obtain c where c: "convertSubnetToCidr L subnet ip = Inr c"
    using convertSubnetToCidr_returns by blast
  show "checkIpAndSubnet L ip subnet \<noteq> Inr (Some ''IP address cannot be the network address.'')"
  proof (cases c)
    case None
    with c show ?thesis by (simp add: checkIpAndSubnet_def)
  next
    case (Some k)
    with c checkIpAndSubnet_IPv6[OF v, of subnet k] show ?thesis by simp
  qed
qed (rule ref_examples_C2)+

theorem C2_witness:
  "IPv6_isValid ipaddr_ref ''2001:db8::'' \<and>
   convertSubnetToCidr ipaddr_ref (Num 64) ''2001:db8::'' = Inr (Some 64) \<and>
   checkIpAndSubnet ipaddr_ref ''2001:db8::'' (Num 64) = Inr (Some ''Invalid subnet mask.'') \<and>
   IPv6_isValid ipaddr_ref ''::1'' \<and>
   convertSubnetToCidr ipaddr_ref (Num 127) ''::1'' = Inr (Some 127) \<and>
   checkIpAndSubnet ipaddr_ref ''::1'' (Num 127) = Inr (Some ''Invalid subnet mask.'') \<and>
   checkIpAndSubnet ipaddr_ref ''::1'' (Num 127) \<noteq> Inr (Some ''IP address cannot be the network address.'')"
proof -
  note v = ref_examples_C2(1) and c = ref_examples_C2(4)
  note v' = ref_examples_C2(6) and c' = ref_examples_C2(7)
  have a: "checkIpAndSubnet ipaddr_ref ''2001:db8::'' (Num 64) = Inr (Some ''Invalid subnet mask.'')"
    using C2_ipv6_branch_invalid_mask [of ipaddr_ref "''2001:db8::''" "Num 64" 64] v c by blast
  have b: "checkIpAndSubnet ipaddr_ref ''::1'' (Num 127) = Inr (Some ''Invalid subnet mask.'')"
    using C2_ipv6_branch_invalid_mask [of ipaddr_ref "''::1''" "Num 127" 127] v' c' by blast
  have d: "checkIpAndSubnet ipaddr_ref ''::1'' (Num 127) \<noteq> Inr (Some ''IP address cannot be the network address.'')"
    using C2_ipv6_branch_invalid_mask [of ipaddr_ref "''::1''" "Num 127" 127] v' by blast
  show ?thesis using v c v' c' a b d by blast
qed

text \<open>
  C3, as amended.  When \<^verbatim>\<open>getIpVersion(referenceIp)\<close> is \<^verbatim>\<open>null\<close>, \<^verbatim>\<open>convertSubnetToCidr\<close>
  applies the IPv4 rules: it returns, for every subnet value, what it returns with a
  reference address of the IPv4 family.  A number \<open>1 \<le> n \<le> 32\<close> normalizes to \<open>n\<close>, and so
  does the decimal text of \<open>0 \<le> n \<le> 32\<close>; the number 0 gives \<^verbatim>\<open>null\<close> (the falsy check of
  line 40).  A number below 0, or above 32 and not one of the 32 numbers \<open>2 ^ 32 - 2 ^ k\<close>
  (\<open>0 \<le> k \<le> 31\<close>), normalizes to \<^verbatim>\<open>null\<close>, and so does its decimal text; with the invalid
  reference \<^verbatim>\<open>"not an ip"\<close> the number 64 normalizes to \<^verbatim>\<open>null\<close>, not to 64.  Nothing is
  stated about those 32 numbers.  (Numbers are taken below \<open>10 ^ 21\<close> in size; the part
  outside the range is for the IPv4 grammar of \<^verbatim>\<open>ipaddr.js\<close>, the rest for every grammar.)
\<close>

theorem C3_invalid_reference_ipv4_rules:
  "(getIpVersion L r = Inr None \<and> getIpVersion L ip4 = Inr (Some ''ipv4'') \<longrightarrow>
      convertSubnetToCidr L subnet r = convertSubnetToCidr L subnet ip4) \<and>
   (getIpVersion L r = Inr None \<and> 1 \<le> n \<and> n \<le> 32 \<longrightarrow>
      convertSubnetToCidr L (Num n) r = Inr (Some n)) \<and>
   (getIpVersion L r = Inr None \<and> 0 \<le> n \<and> n \<le> 32 \<longrightarrow>
      convertSubnetToCidr L (Str (dec_int n)) r = Inr (Some n)) \<and>
   (getIpVersion L r = Inr None \<longrightarrow> convertSubnetToCidr L (Num 0) r = Inr None) \<and>
   (getIpVersion ipaddr_ref r = Inr None \<and> (n < 0 \<or> 32 < n) \<and> \<bar>n\<bar> < 10 ^ 21 \<and>
    n \<notin> set mask_numbers \<longrightarrow>
      convertSubnetToCidr ipaddr_ref (Num n) r = Inr None \<and>
      convertSubnetToCidr ipaddr_ref (Str (dec_int n)) r = Inr None) \<and>
   getIpVersion ipaddr_ref ''not an ip'' = Inr None \<and>
   convertSubnetToCidr ipaddr_ref (Num 64) ''not an ip'' = Inr None"
proof (intro conjI impI)
  assume "getIpVersion L r = Inr None \<and> getIpVersion L ip4 = Inr (Some ''ipv4'')"
  then have "IPv6_isValid L r = IPv6_isValid L ip4"
    by (simp add: version_null_iff version_ipv4_iff)
  then show "convertSubnetToCidr L subnet r = convertSubnetToCidr L subnet ip4"
    by (rule convertSubnetToCidr_family)
next
  assume "getIpVersion L r = Inr None \<and> 1 \<le> n \<and> n \<le> 32"
  then show "convertSubnetToCidr L (Num n) r = Inr (Some n)"
    by (simp add: convertSubnetToCidr_Num version_null_iff)
next
  assume "getIpVersion L r = Inr None \<and> 0 \<le> n \<and> n \<le> 32"
  then show "convertSubnetToCidr L (Str (dec_int n)) r = Inr (Some n)"
    by (simp add: convertSubnetToCidr_Str_dec version_null_iff)
next
  show "convertSubnetToCidr L (Num 0) r = Inr None"
    by (simp add: convertSubnetToCidr_Num)
next
  assume h: "getIpVersion ipaddr_ref r = Inr None \<and> (n < 0 \<or> 32 < n) \<and> \<bar>n\<bar> < 10 ^ 21 \<and>
    n \<notin> set mask_numbers"
  then have v4: "\<not> IPv6_isValid ipaddr_ref r" by (simp add: version_null_iff)
  have d: "dotted_path ipaddr_ref (dec_int n) r = None"
  proof (cases "n < 0")
    case True
    then show ?thesis by (rule dotted_path_ref_negative)
  next
    case False
    with h have "1 \<le> n" "n \<notin> set mask_numbers" by simp_all
    then show ?thesis by (rule dotted_path_ref_number)
  qed
  from h have n: "n \<noteq> 0" "\<not> (0 \<le> n \<and> n \<le> 32)" by auto
  show "convertSubnetToCidr ipaddr_ref (Num n) r = Inr None"
    using n v4 d by (simp add: convertSubnetToCidr_Num)
  show "convertSubnetToCidr ipaddr_ref (Str (dec_int n)) r = Inr None"
    using n v4 d by (simp add: convertSubnetToCidr_Str_dec)
qed (rule ref_examples_C3)+

theorem C3_witness:
  "getIpVersion ipaddr_ref ''not an ip'' = Inr None \<and>
   getIpVersion ipaddr_ref ''192.168.1.1'' = Inr (Some ''ipv4'') \<and>
   convertSubnetToCidr ipaddr_ref (Str ''255.255.0.0'') ''not an ip'' =
     convertSubnetToCidr ipaddr_ref (Str ''255.255.0.0'') ''192.168.1.1'' \<and>
   convertSubnetToCidr ipaddr_ref (Num 24) ''not an ip'' = Inr (Some 24) \<and>
   convertSubnetToCidr ipaddr_ref (Str (dec_int 24)) ''not an ip'' = Inr (Some 24) \<and>
   convertSubnetToCidr ipaddr_ref (Num 0) ''not an ip'' = Inr None \<and>
   (64 :: int) \<notin> set mask_numbers \<and>
   convertSubnetToCidr ipaddr_ref (Num 64) ''not an ip'' = Inr None \<and>
   convertSubnetToCidr ipaddr_ref (Str (dec_int 64)) ''not an ip'' = Inr None \<and>
   convertSubnetToCidr ipaddr_ref (Num (- 1)) ''not an ip'' = Inr None"
proof -
  note r = ref_examples_C3(1) and v4 = ref_examples_C1(1)
  note m = mask_numbers_examples(1) and m' = mask_numbers_examples(2)
  note t24 = C3_invalid_reference_ipv4_rules
    [of ipaddr_ref "''not an ip''" "''192.168.1.1''" "Str ''255.255.0.0''" 24]
  note t64 = C3_invalid_reference_ipv4_rules
    [of ipaddr_ref "''not an ip''" "''192.168.1.1''" "Str ''255.255.0.0''" 64]
  note t1 = C3_invalid_reference_ipv4_rules
    [of ipaddr_ref "''not an ip''" "''192.168.1.1''" "Str ''255.255.0.0''" "- 1"]
  have a: "convertSubnetToCidr ipaddr_ref (Str ''255.255.0.0'') ''not an ip'' =
      convertSubnetToCidr ipaddr_ref (Str ''255.255.0.0'') ''192.168.1.1''"
    using t24 r v4 by blast
  have b: "convertSubnetToCidr ipaddr_ref (Num 24) ''not an ip'' = Inr (Some 24)"
    using t24 r by simp
  have c: "convertSubnetToCidr ipaddr_ref (Str (dec_int 24)) ''not an ip'' = Inr (Some 24)"
    using t24 r by simp
  have d: "convertSubnetToCidr ipaddr_ref (Num 0) ''not an ip'' = Inr None"
    using t24 r by blast
  have "getIpVersion ipaddr_ref ''not an ip'' = Inr None \<and> ((64 :: int) < 0 \<or> (32 :: int) < 64) \<and>
      \<bar>64 :: int\<bar> < 10 ^ 21 \<and> (64 :: int) \<notin> set mask_numbers"
    using r m by simp
  then have e: "convertSubnetToCidr ipaddr_ref (Num 64) ''not an ip'' = Inr None \<and>
      convertSubnetToCidr ipaddr_ref (Str (dec_int 64)) ''not an ip'' = Inr None"
    using t64 by blast
  have "getIpVersion ipaddr_ref ''not an ip'' = Inr None \<and> ((- 1 :: int) < 0 \<or> (32 :: int) < - 1) \<and>
      \<bar>- 1 :: int\<bar> < 10 ^ 21 \<and> (- 1 :: int) \<notin> set mask_numbers"
    using r m' by simp
  then have f: "convertSubnetToCidr ipaddr_ref (Num (- 1)) ''not an ip'' = Inr None"
    using t1 by blast
  show ?thesis using r v4 m a b c d e f by blast
qed

text \<open>
  The claim as stated ("accepted exactly when its integer value lies in \<open>[0,32]\<close>") fails
  with the invalid reference \<^verbatim>\<open>"not an ip"\<close> at the number 0, which is refused, and at
  4294967040, which falls through to the branch for dotted-decimal masks and is accepted
  there as the one-part form of \<^verbatim>\<open>255.255.255.0\<close>.
\<close>

theorem C3_counterexample:
  "getIpVersion ipaddr_ref ''not an ip'' = Inr None \<and>
   convertSubnetToCidr ipaddr_ref (Num 0) ''not an ip'' = Inr None \<and>
   convertSubnetToCidr ipaddr_ref (Num 4294967040) ''not an ip'' = Inr (Some 24)"
  using ref_examples_C3 by simp

text \<open>
  C4.  For every string \<open>s\<close>, if \<^verbatim>\<open>validateIp(s)\<close> is true then \<^verbatim>\<open>getIpVersion(s)\<close> returns a
  family and not \<^verbatim>\<open>null\<close> (and does not throw), whatever the grammars of the collaborator
  are; the converse fails: with the reference grammar there is a string (the three-part
  shorthand \<^verbatim>\<open>192.168.1\<close>) that has a version and that \<^verbatim>\<open>validateIp\<close> rejects.
\<close>

theorem C4_strict_implies_lenient:
  "(validateIp L s \<longrightarrow> (\<exists>k. getIpVersion L s = Inr (Some k))) \<and>
   (\<exists>t. (\<exists>k. getIpVersion ipaddr_ref t = Inr (Some k)) \<and> \<not> validateIp ipaddr_ref t)"
proof
  show "validateIp L s \<longrightarrow> (\<exists>k. getIpVersion L s = Inr (Some k))"
  proof
    assume "validateIp L s"
    then consider "IPv6_isValid L s" | "IPv4_isValidFourPartDecimal L s"
      by (auto simp: validateIp_eq)
    then show "\<exists>k. getIpVersion L s = Inr (Some k)"
    proof cases
      case 1
      then show ?thesis by (simp add: getIpVersion_eq)
    next
      case 2
      then show ?thesis by (simp add: FourPartDecimal_version)
    qed
  qed
  show "\<exists>t. (\<exists>k. getIpVersion ipaddr_ref t = Inr (Some k)) \<and> \<not> validateIp ipaddr_ref t"
    using shorthand_example by blast
qed

theorem C4_witness:
  "validateIp ipaddr_ref ''192.168.1.1'' \<and> (\<exists>k. getIpVersion ipaddr_ref ''192.168.1.1'' = Inr (Some k))"
  using C4_strict_implies_lenient [of ipaddr_ref "''192.168.1.1''"] valid_example by blast

text \<open>
  C5, as amended.  For every IPv4-valid address \<open>ip\<close> (four-part decimal, with octets \<open>os\<close>)
  and every subnet value that normalizes to a prefix length \<open>cidr\<close> for it (the number
  \<open>cidr\<close> when \<open>1 \<le> cidr \<le> 32\<close>, its decimal text when \<open>0 \<le> cidr \<le> 32\<close>, or a dotted mask): if
  \<open>cidr < 31\<close> and \<open>ip\<close> is the text of the network address of \<open>ip/cidr\<close>,
  \<^verbatim>\<open>checkIpAndSubnet\<close> returns \<^verbatim>\<open>"IP address cannot be the network address."\<close>; if
  \<open>cidr < 31\<close> and \<open>ip\<close> is the text of the broadcast address, it returns
  \<^verbatim>\<open>"IP address cannot be the broadcast address."\<close>; and when \<open>cidr\<close> is 31 or 32 it returns
  neither message but \<^verbatim>\<open>null\<close>.  With the number 0 as subnet it returns
  \<^verbatim>\<open>"Invalid IP or Subnet format."\<close> for every address.  With the reference grammar
  \<^verbatim>\<open>checkIpAndSubnet("10.0.0.0", 31)\<close> and \<^verbatim>\<open>checkIpAndSubnet("10.0.0.1", 31)\<close> are \<^verbatim>\<open>null\<close>,
  and the three examples on \<^verbatim>\<open>192.168.1.0/24\<close> give the network message, the broadcast
  message and \<^verbatim>\<open>null\<close>.
\<close>

theorem C5_ipv4_network_and_broadcast:
  "(IPv4_isValidFourPartDecimal L ip \<and> IPv4_parse L ip = Inr (IPv4 os) \<and>
    convertSubnetToCidr L subnet ip = Inr (Some cidr) \<and> cidr < 31 \<and>
    ip = IPv4_toString (IPv4 (network_address os cidr)) \<longrightarrow>
      checkIpAndSubnet L ip subnet = Inr (Some ''IP address cannot be the network address.'')) \<and>
   (IPv4_isValidFourPartDecimal L ip \<and> IPv4_parse L ip = Inr (IPv4 os) \<and>
    convertSubnetToCidr L subnet ip = Inr (Some cidr) \<and> cidr < 31 \<and>
    ip = IPv4_toString (IPv4 (broadcast_address os cidr)) \<longrightarrow>
      checkIpAndSubnet L ip subnet = Inr (Some ''IP address cannot be the broadcast address.'')) \<and>
   (IPv4_isValidFourPartDecimal L ip \<and> convertSubnetToCidr L subnet ip = Inr (Some cidr) \<and>
    (cidr = 31 \<or> cidr = 32) \<longrightarrow>
      checkIpAndSubnet L ip subnet = Inr None) \<and>
   (IPv4_isValidFourPartDecimal L ip \<and> 1 \<le> cidr \<and> cidr \<le> 32 \<longrightarrow>
      convertSubnetToCidr L (Num cidr) ip = Inr (Some cidr)) \<and>
   (IPv4_isValidFourPartDecimal L ip \<and> 0 \<le> cidr \<and> cidr \<le> 32 \<longrightarrow>
      convertSubnetToCidr L (Str (dec_int cidr)) ip = Inr (Some cidr)) \<and>
   checkIpAndSubnet L ip (Num 0) = Inr (Some ''Invalid IP or Subnet format.'') \<and>
   checkIpAndSubnet ipaddr_ref ''10.0.0.0'' (Num 31) = Inr None \<and>
   checkIpAndSubnet ipaddr_ref ''10.0.0.1'' (Num 31) = Inr None \<and>
   checkIpAndSubnet ipaddr_ref ''192.168.1.0'' (Num 24) = Inr (Some ''IP address cannot be the network address.'') \<and>
   checkIpAndSubnet ipaddr_ref ''192.168.1.255'' (Num 24) = Inr (Some ''IP address cannot be the broadcast address.'') \<and>
   checkIpAndSubnet ipaddr_ref ''192.168.1.1'' (Num 24) = Inr None"
proof (intro conjI impI)
  assume h: "IPv4_isValidFourPartDecimal L ip \<and> IPv4_parse L ip = Inr (IPv4 os) \<and>
    convertSubnetToCidr L subnet ip = Inr (Some cidr) \<and> cidr < 31 \<and>
    ip = IPv4_toString (IPv4 (network_address os cidr))"
  then show "checkIpAndSubnet L ip subnet = Inr (Some ''IP address cannot be the network address.'')"
    using checkIpAndSubnet_IPv4[of L ip subnet cidr] by auto
next
  assume h: "IPv4_isValidFourPartDecimal L ip \<and> IPv4_parse L ip = Inr (IPv4 os) \<and>
    convertSubnetToCidr L subnet ip = Inr (Some cidr) \<and> cidr < 31 \<and>
    ip = IPv4_toString (IPv4 (broadcast_address os cidr))"
  then obtain os' where o: "IPv4_parse L ip = Inr (IPv4 os')"
    "cidr \<le> 31 \<longrightarrow> IPv4_toString (IPv4 (network_address os' cidr)) \<noteq> IPv4_toString (IPv4 (broadcast_address os' cidr))"
    "checkIpAndSubnet L ip subnet =
      (if ip = IPv4_toString (IPv4 (network_address os' cidr)) \<and> cidr < 31
       then Inr (Some ''IP address cannot be the network address.'')
       else if ip = IPv4_toString (IPv4 (broadcast_address os' cidr)) \<and> cidr < 31
       then Inr (Some ''IP address cannot be the broadcast address.'')
       else Inr None)"
    using checkIpAndSubnet_IPv4[of L ip subnet cidr] by blast
  from h have "IPv4_parse L ip = Inr (IPv4 os)" by blast
  with o(1) have e: "os' = os" by simp
  have b: "ip = IPv4_toString (IPv4 (broadcast_address os cidr))" "cidr < 31" using h by simp_all
  have "ip \<noteq> IPv4_toString (IPv4 (network_address os cidr))" using o(2) b e by auto
  then show "checkIpAndSubnet L ip subnet = Inr (Some ''IP address cannot be the broadcast address.'')"
    using o(3) b e by simp
next
  assume h: "IPv4_isValidFourPartDecimal L ip \<and> convertSubnetToCidr L subnet ip = Inr (Some cidr) \<and>
    (cidr = 31 \<or> cidr = 32)"
  then show "checkIpAndSubnet L ip subnet = Inr None"
    using checkIpAndSubnet_IPv4[of L ip subnet cidr] by auto
next
  assume "IPv4_isValidFourPartDecimal L ip \<and> 1 \<le> cidr \<and> cidr \<le> 32"
  then show "convertSubnetToCidr L (Num cidr) ip = Inr (Some cidr)"
    using FourPartDecimal_not_IPv6[of L ip] by (simp add: convertSubnetToCidr_Num)
next
  assume "IPv4_isValidFourPartDecimal L ip \<and> 0 \<le> cidr \<and> cidr \<le> 32"
  then show "convertSubnetToCidr L (Str (dec_int cidr)) ip = Inr (Some cidr)"
    using FourPartDecimal_not_IPv6[of L ip] by (simp add: convertSubnetToCidr_Str_dec)
next
  show "checkIpAndSubnet L ip (Num 0) = Inr (Some ''Invalid IP or Subnet format.'')"
    by (simp add: checkIpAndSubnet_def convertSubnetToCidr_Num)
qed (rule ref_examples_C5)+

theorem C5_witness:
  "IPv4_isValidFourPartDecimal ipaddr_ref ''192.168.1.0'' \<and>
   IPv4_parse ipaddr_ref ''192.168.1.0'' = Inr (IPv4 [192, 168, 1, 0]) \<and>
   convertSubnetToCidr ipaddr_ref (Num 24) ''192.168.1.0'' = Inr (Some 24) \<and>
   IPv4_toString (IPv4 (network_address [192, 168, 1, 0] 24)) = ''192.168.1.0'' \<and>
   checkIpAndSubnet ipaddr_ref ''192.168.1.0'' (Num 24) = Inr (Some ''IP address cannot be the network address.'') \<and>
   IPv4_isValidFourPartDecimal ipaddr_ref ''192.168.1.255'' \<and>
   IPv4_parse ipaddr_ref ''192.168.1.255'' = Inr (IPv4 [192, 168, 1, 255]) \<and>
   convertSubnetToCidr ipaddr_ref (Num 24) ''192.168.1.255'' = Inr (Some 24) \<and>
   IPv4_toString (IPv4 (broadcast_address [192, 168, 1, 255] 24)) = ''192.168.1.255'' \<and>
   checkIpAndSubnet ipaddr_ref ''192.168.1.255'' (Num 24) = Inr (Some ''IP address cannot be the broadcast address.'') \<and>
   IPv4_isValidFourPartDecimal ipaddr_ref ''10.0.0.0'' \<and>
   convertSubnetToCidr ipaddr_ref (Num 31) ''10.0.0.0'' = Inr (Some 31) \<and>
   checkIpAndSubnet ipaddr_ref ''10.0.0.0'' (Num 31) = Inr None"
proof -
  note e = ref_examples_C5_inputs
  have a: "checkIpAndSubnet ipaddr_ref ''192.168.1.0'' (Num 24) = Inr (Some ''IP address cannot be the network address.'')"
    using C5_ipv4_network_and_broadcast [of ipaddr_ref "''192.168.1.0''" "[192, 168, 1, 0]" "Num 24" 24]
      e(1,2,3,4) by simp
  have b: "checkIpAndSubnet ipaddr_ref ''192.168.1.255'' (Num 24) = Inr (Some ''IP address cannot be the broadcast address.'')"
    using C5_ipv4_network_and_broadcast [of ipaddr_ref "''192.168.1.255''" "[192, 168, 1, 255]" "Num 24" 24]
      e(5,6,7,8) by simp
  have c: "checkIpAndSubnet ipaddr_ref ''10.0.0.0'' (Num 31) = Inr None"
    using C5_ipv4_network_and_broadcast [of ipaddr_ref "''10.0.0.0''" "[]" "Num 31" 31]
      e(9,10) by simp
  show ?thesis using a b c e by blast
qed

text \<open>
  The claim as stated fails at the prefix length 0 given as a number: \<^verbatim>\<open>0.0.0.0\<close> is the
  network address of \<^verbatim>\<open>0.0.0.0/0\<close>, and \<^verbatim>\<open>checkIpAndSubnet("0.0.0.0", 0)\<close> returns the
  message for an invalid format, not the one for a network address.
\<close>

theorem C5_counterexample:
  "IPv4_isValidFourPartDecimal ipaddr_ref ''0.0.0.0'' \<and>
   IPv4_parse ipaddr_ref ''0.0.0.0'' = Inr (IPv4 [0, 0, 0, 0]) \<and>
   IPv4_toString (IPv4 (network_address [0, 0, 0, 0] 0)) = ''0.0.0.0'' \<and>
   checkIpAndSubnet ipaddr_ref ''0.0.0.0'' (Num 0) = Inr (Some ''Invalid IP or Subnet format.'')"
  using ref_examples_C5_zero by simp

text \<open>
  C6.  For every reference address \<open>ip\<close> of the IPv4 family,
  \<^verbatim>\<open>convertSubnetToCidr("255.255.255.0", ip)\<close> is 24 and
  \<^verbatim>\<open>convertSubnetToCidr("255.0.255.0", ip)\<close> is \<^verbatim>\<open>null\<close>, the octets of the second not being a
  run of one bits followed by zero bits; so \<^verbatim>\<open>validateSubnet\<close> is true on the first mask
  and false on the second.  (The two masks are read with the reference IPv4 grammar.)
\<close>

theorem C6_dotted_decimal_masks:
  "getIpVersion ipaddr_ref ip = Inr (Some ''ipv4'') \<longrightarrow>
     convertSubnetToCidr ipaddr_ref (Str ''255.255.255.0'') ip = Inr (Some 24) \<and>
     convertSubnetToCidr ipaddr_ref (Str ''255.0.255.0'') ip = Inr None \<and>
     validateSubnet ipaddr_ref (Str ''255.255.255.0'') ip = Inr True \<and>
     validateSubnet ipaddr_ref (Str ''255.0.255.0'') ip = Inr False"
  using dotted_decimal_masks [of ipaddr_ref ip] ref_parser by blast

theorem C6_witness:
  "getIpVersion ipaddr_ref ''192.168.1.1'' = Inr (Some ''ipv4'') \<and>
   convertSubnetToCidr ipaddr_ref (Str ''255.255.255.0'') ''192.168.1.1'' = Inr (Some 24) \<and>
   convertSubnetToCidr ipaddr_ref (Str ''255.0.255.0'') ''192.168.1.1'' = Inr None \<and>
   validateSubnet ipaddr_ref (Str ''255.255.255.0'') ''192.168.1.1'' = Inr True \<and>
   validateSubnet ipaddr_ref (Str ''255.0.255.0'') ''192.168.1.1'' = Inr False"
  using C6_dotted_decimal_masks [of "''192.168.1.1''"] ref_examples_C1(1)
  by blast

text \<open>
  C7.  For every string \<open>ip\<close>: \<^verbatim>\<open>isPublicIp(ip)\<close> is false when \<^verbatim>\<open>validateIp(ip)\<close> is false;
  otherwise \<open>ip\<close> parses, and \<^verbatim>\<open>isPublicIp(ip)\<close> is true if and only if the range of the
  parsed address is exactly \<^verbatim>\<open>'unicast'\<close>.  With the reference tables \<^verbatim>\<open>8.8.8.8\<close> is
  public; \<^verbatim>\<open>192.168.1.1\<close>, \<^verbatim>\<open>10.0.0.1\<close>, \<^verbatim>\<open>172.16.0.1\<close> and \<^verbatim>\<open>not an ip\<close> are not; private,
  loopback, link-local, multicast and reserved addresses are classified as such and
  hence are not public.
\<close>

theorem C7_public_iff_unicast:
  "(\<not> validateIp L ip \<longrightarrow> \<not> isPublicIp L ip) \<and>
   (validateIp L ip \<longrightarrow>
      (\<exists>a. ipaddr_parse L ip = Inr a \<and> (isPublicIp L ip \<longleftrightarrow> addr_range L a = Inr ''unicast''))) \<and>
   isPublicIp ipaddr_ref ''8.8.8.8'' \<and>
   \<not> isPublicIp ipaddr_ref ''192.168.1.1'' \<and>
   \<not> isPublicIp ipaddr_ref ''10.0.0.1'' \<and>
   \<not> isPublicIp ipaddr_ref ''172.16.0.1'' \<and>
   \<not> isPublicIp ipaddr_ref ''not an ip'' \<and>
   addr_range ipaddr_ref (IPv4 [192, 168, 1, 1]) = Inr ''private'' \<and>
   addr_range ipaddr_ref (IPv4 [127, 0, 0, 1]) = Inr ''loopback'' \<and>
   addr_range ipaddr_ref (IPv4 [169, 254, 3, 4]) = Inr ''linkLocal'' \<and>
   addr_range ipaddr_ref (IPv4 [224, 0, 0, 251]) = Inr ''multicast'' \<and>
   addr_range ipaddr_ref (IPv4 [240, 0, 0, 1]) = Inr ''reserved''"
proof (intro conjI impI)
  assume "\<not> validateIp L ip"
  then show "\<not> isPublicIp L ip" by (simp add: isPublicIp_def)
next
  assume v: "validateIp L ip"
  then obtain a where a: "ipaddr_parse L ip = Inr a" using validateIp_parse by blast
  have "isPublicIp L ip \<longleftrightarrow> addr_range L a = Inr ''unicast''"
    using v a by (auto simp: isPublicIp_def split: sum.splits)
  with a show "\<exists>a. ipaddr_parse L ip = Inr a \<and> (isPublicIp L ip \<longleftrightarrow> addr_range L a = Inr ''unicast'')"
    by blast
qed (rule ref_examples_C7)+

theorem C7_witness:
  "validateIp ipaddr_ref ''8.8.8.8'' \<and>
   ipaddr_parse ipaddr_ref ''8.8.8.8'' = Inr (IPv4 [8, 8, 8, 8]) \<and>
   addr_range ipaddr_ref (IPv4 [8, 8, 8, 8]) = Inr ''unicast'' \<and>
   isPublicIp ipaddr_ref ''8.8.8.8'' \<and>
   \<not> validateIp ipaddr_ref ''192.168.1'' \<and>
   \<not> isPublicIp ipaddr_ref ''192.168.1''"
  using C7_public_iff_unicast [of ipaddr_ref "''8.8.8.8''"]
    C7_public_iff_unicast [of ipaddr_ref "''192.168.1''"]
    ref_examples_C7(6,7,8) shorthand_example(2)
  by blast

text \<open>
  C8.  For every address \<open>ip\<close> with \<^verbatim>\<open>validateIp(ip)\<close> true and every subnet value with
  \<^verbatim>\<open>validateSubnet(subnet, ip)\<close> true, \<^verbatim>\<open>isSameSubnet(ip, ip, subnet)\<close> returns true.
\<close>

theorem C8_isSameSubnet_reflexive:
  "validateIp L ip \<and> validateSubnet L subnet ip = Inr True \<longrightarrow> isSameSubnet L ip ip subnet = Inr True"
proof
  assume a: "validateIp L ip \<and> validateSubnet L subnet ip = Inr True"
  then obtain c where c: "convertSubnetToCidr L subnet ip = Inr (Some c)"
    by (auto simp: validateSubnet_True)
  from a obtain x where x: "ipaddr_parse L ip = Inr x" using validateIp_parse by blast
  show "isSameSubnet L ip ip subnet = Inr True"
    using a by (simp add: isSameSubnet_def c x addr_match_refl)
qed

theorem C8_witness:
  "validateIp ipaddr_ref ''192.168.1.1'' \<and>
   validateSubnet ipaddr_ref (Str ''255.255.255.0'') ''192.168.1.1'' = Inr True \<and>
   isSameSubnet ipaddr_ref ''192.168.1.1'' ''192.168.1.1'' (Str ''255.255.255.0'') = Inr True \<and>
   validateIp ipaddr_ref ''2001:db8::1'' \<and>
   validateSubnet ipaddr_ref (Num 64) ''2001:db8::1'' = Inr True \<and>
   isSameSubnet ipaddr_ref ''2001:db8::1'' ''2001:db8::1'' (Num 64) = Inr True"
  using C8_isSameSubnet_reflexive [of ipaddr_ref "''192.168.1.1''" "Str ''255.255.255.0''"]
    C8_isSameSubnet_reflexive [of ipaddr_ref "''2001:db8::1''" "Num 64"]
    valid_example ref_examples_C8
  by blast

text \<open>
  C9.  For all strings \<open>ip1\<close>, \<open>ip2\<close> and every subnet value, \<^verbatim>\<open>isSameSubnet(ip1, ip2, subnet)\<close>
  returns a boolean and never throws; it returns false whenever \<open>ip1\<close> or \<open>ip2\<close> fails
  \<^verbatim>\<open>validateIp\<close>, or \<^verbatim>\<open>convertSubnetToCidr(subnet, ip1)\<close> (the prefix length, derived from the
  family of \<open>ip1\<close>) is \<^verbatim>\<open>null\<close>, or the two addresses are of different families; so
  \<^verbatim>\<open>isSameSubnet("192.168.1.1", "::1", 24)\<close> is false.
\<close>

theorem C9_isSameSubnet_false_never_throws:
  "(\<exists>b. isSameSubnet L ip1 ip2 subnet = Inr b) \<and>
   (\<not> validateIp L ip1 \<or> \<not> validateIp L ip2 \<or> convertSubnetToCidr L subnet ip1 = Inr None \<or>
    getIpVersion L ip1 \<noteq> getIpVersion L ip2 \<longrightarrow>
      isSameSubnet L ip1 ip2 subnet = Inr False) \<and>
   isSameSubnet ipaddr_ref ''192.168.1.1'' ''::1'' (Num 24) = Inr False"
proof (intro conjI impI)
  show "\<exists>b. isSameSubnet L ip1 ip2 subnet = Inr b" by (rule isSameSubnet_returns)
next
  assume h: "\<not> validateIp L ip1 \<or> \<not> validateIp L ip2 \<or> convertSubnetToCidr L subnet ip1 = Inr None \<or>
    getIpVersion L ip1 \<noteq> getIpVersion L ip2"
  obtain c where c: "convertSubnetToCidr L subnet ip1 = Inr c"
    using convertSubnetToCidr_returns by blast
  show "isSameSubnet L ip1 ip2 subnet = Inr False"
  proof (cases "\<not> validateIp L ip1 \<or> \<not> validateIp L ip2 \<or> c = None")
    case True
    then show ?thesis by (auto simp: isSameSubnet_def c)
  next
    case False
    then obtain n where n: "c = Some n" and v: "validateIp L ip1" "validateIp L ip2" by auto
    from v obtain a1 a2 where a: "ipaddr_parse L ip1 = Inr a1" "ipaddr_parse L ip2 = Inr a2"
      using validateIp_parse by blast
    from h False c have "getIpVersion L ip1 \<noteq> getIpVersion L ip2" by auto
    then have "kind a1 \<noteq> kind a2" using a by (auto simp: getIpVersion_parse)
    then show ?thesis using v by (simp add: isSameSubnet_def c n a)
  qed
next
  show "isSameSubnet ipaddr_ref ''192.168.1.1'' ''::1'' (Num 24) = Inr False"
    by (rule ref_examples_C9)
qed

theorem C9_witness:
  "validateIp ipaddr_ref ''192.168.1.1'' \<and> validateIp ipaddr_ref ''::1'' \<and>
   convertSubnetToCidr ipaddr_ref (Num 24) ''192.168.1.1'' = Inr (Some 24) \<and>
   getIpVersion ipaddr_ref ''192.168.1.1'' = Inr (Some ''ipv4'') \<and>
   getIpVersion ipaddr_ref ''::1'' = Inr (Some ''ipv6'') \<and>
   isSameSubnet ipaddr_ref ''192.168.1.1'' ''::1'' (Num 24) = Inr False \<and>
   \<not> validateIp ipaddr_ref ''192.168.1'' \<and>
   isSameSubnet ipaddr_ref ''192.168.1'' ''192.168.1.1'' (Num 24) = Inr False \<and>
   isSameSubnet ipaddr_ref ''192.168.1.1'' ''192.168.1'' (Num 24) = Inr False \<and>
   validateIp ipaddr_ref ''192.168.1.100'' \<and>
   convertSubnetToCidr ipaddr_ref (Num 64) ''192.168.1.1'' = Inr None \<and>
   isSameSubnet ipaddr_ref ''192.168.1.1'' ''192.168.1.100'' (Num 64) = Inr False"
proof -
  have "getIpVersion ipaddr_ref ''192.168.1.1'' \<noteq> getIpVersion ipaddr_ref ''::1''"
    by (simp add: ref_examples_C1(1) ref_examples_C9(3))
  then have a: "isSameSubnet ipaddr_ref ''192.168.1.1'' ''::1'' (Num 24) = Inr False"
    using C9_isSameSubnet_false_never_throws [of ipaddr_ref "''192.168.1.1''" "''::1''" "Num 24"] by blast
  have b: "isSameSubnet ipaddr_ref ''192.168.1'' ''192.168.1.1'' (Num 24) = Inr False"
    using C9_isSameSubnet_false_never_throws [of ipaddr_ref "''192.168.1''" "''192.168.1.1''" "Num 24"]
      shorthand_example(2) by blast
  have c: "isSameSubnet ipaddr_ref ''192.168.1.1'' ''192.168.1'' (Num 24) = Inr False"
    using C9_isSameSubnet_false_never_throws [of ipaddr_ref "''192.168.1.1''" "''192.168.1''" "Num 24"]
      shorthand_example(2) by blast
  have d: "isSameSubnet ipaddr_ref ''192.168.1.1'' ''192.168.1.100'' (Num 64) = Inr False"
    using C9_isSameSubnet_false_never_throws [of ipaddr_ref "''192.168.1.1''" "''192.168.1.100''" "Num 64"]
      ref_examples_C9(5) by blast
  show ?thesis
    using a b c d valid_example ref_examples_C9 ref_examples_C1(1) shorthand_example(2) by blast
qed

text \<open>
  C10.  \<^verbatim>\<open>convertSubnetToCidr\<close> (and hence \<^verbatim>\<open>validateSubnet\<close>) tells the number 0 from the
  string \<^verbatim>\<open>"0"\<close>: for every reference address (and every collaborator) the number 0 is
  stopped by the falsy check, so the result is \<^verbatim>\<open>null\<close> and \<^verbatim>\<open>validateSubnet\<close> is false,
  while the string \<^verbatim>\<open>"0"\<close> normalizes to the prefix length 0 and \<^verbatim>\<open>validateSubnet\<close> is true.
\<close>

theorem C10_zero_number_and_zero_string:
  "convertSubnetToCidr L (Num 0) ip = Inr None \<and>
   validateSubnet L (Num 0) ip = Inr False \<and>
   convertSubnetToCidr L (Str ''0'') ip = Inr (Some 0) \<and>
   validateSubnet L (Str ''0'') ip = Inr True"
proof -
  have n: "convertSubnetToCidr L (Num 0) ip = Inr None"
    by (simp add: convertSubnetToCidr_def)
  have s: "convertSubnetToCidr L (Str ''0'') ip = Inr (Some 0)"
    by (simp add: convertSubnetToCidr_eq text_zero)
  show ?thesis using n s by (simp add: validateSubnet_def)
qed

theorem C10_witness:
  "convertSubnetToCidr ipaddr_ref (Num 0) ''10.0.0.1'' = Inr None \<and>
   validateSubnet ipaddr_ref (Num 0) ''10.0.0.1'' = Inr False \<and>
   convertSubnetToCidr ipaddr_ref (Str ''0'') ''10.0.0.1'' = Inr (Some 0) \<and>
   validateSubnet ipaddr_ref (Str ''0'') ''10.0.0.1'' = Inr True"
  by (rule C10_zero_number_and_zero_string)

end
